theory Spec2Isabelle
  imports Main "HOL-Library.AList"
begin

section \<open>JavaScript values\<close>

text \<open>
  The payloads of \<^verbatim>\<open>embedded_records_mixin.js\<close> are JSON values. An object is an
  association list in insertion order: \<open>AList.update\<close> overwrites a key in place or
  appends it, as an assignment \<^verbatim>\<open>o[k] = v\<close> does, and \<open>AList.delete\<close> is
  \<^verbatim>\<open>delete o[k]\<close>. A payload is a tree, as \<^verbatim>\<open>JSON.parse\<close> yields it: no object
  occurs in it twice, so that a node can be passed and returned as a value. A number is
  held as the string JavaScript prints for it, which is all this code needs of a number
  (its truthiness and its use as a property key).

  Field names that come from the application's schema (relationship keys, primary keys,
  type keys) are taken not to be names of members that every JavaScript object or
  primitive inherits; a property read on a string, number, boolean or array under such
  a name is \<open>Undefined\<close>.
\<close>

datatype json =
    Undefined
  | Null
  | Bool bool
  | Num string
  | Str string
  | Arr "json list"
  | Obj "(string \<times> json) list"

type_synonym obj = "(string \<times> json) list"

text \<open>
  \<open>TypeError\<close> is the exception JavaScript throws on a property read of
  \<^verbatim>\<open>undefined\<close> or \<^verbatim>\<open>null\<close> and on a call of something that is not a function.
  \<open>NotModelled\<close> marks the one place where the model stops: an embedded relation whose
  value is truthy and not an array.
\<close>

datatype error = TypeError | NotModelled

fun truthy :: "json \<Rightarrow> bool" where
  "truthy Undefined = False"
| "truthy Null = False"
| "truthy (Bool b) = b"
| "truthy (Num s) = (s \<noteq> ''0'' \<and> s \<noteq> ''NaN'')"
| "truthy (Str s) = (s \<noteq> [])"
| "truthy (Arr xs) = True"
| "truthy (Obj fs) = True"

text \<open>\<open>read_prop v k\<close> is \<^verbatim>\<open>v[k]\<close> where \<^verbatim>\<open>v\<close> is known not to be
  \<^verbatim>\<open>undefined\<close> or \<^verbatim>\<open>null\<close>; \<open>get_prop\<close> is the read that can throw.\<close>

fun read_prop :: "json \<Rightarrow> string \<Rightarrow> json" where
  "read_prop (Obj fs) k = (case map_of fs k of Some v \<Rightarrow> v | None \<Rightarrow> Undefined)"
| "read_prop v k = Undefined"

fun get_prop :: "json \<Rightarrow> string \<Rightarrow> error + json" where
  "get_prop Undefined k = Inl TypeError"
| "get_prop Null k = Inl TypeError"
| "get_prop v k = Inr (read_prop v k)"

fun set_prop :: "json \<Rightarrow> string \<Rightarrow> json \<Rightarrow> json" where
  "set_prop (Obj fs) k v = Obj (AList.update k v fs)"
| "set_prop x k v = x"

fun delete_prop :: "json \<Rightarrow> string \<Rightarrow> json" where
  "delete_prop (Obj fs) k = Obj (AList.delete k fs)"
| "delete_prop x k = x"

text \<open>
  A value used as a property key is converted by JavaScript's \<^verbatim>\<open>ToString\<close>. The
  conversion of an object is the default one, \<^verbatim>\<open>"[object Object]"\<close>; an object with
  an own field \<^verbatim>\<open>toString\<close>, for which the conversion throws, is not distinguished.
\<close>

fun join :: "string list \<Rightarrow> string" where
  "join [] = []"
| "join [s] = s"
| "join (s # t # ss) = s @ '','' @ join (t # ss)"

fun to_string :: "json \<Rightarrow> string" where
  "to_string Undefined = ''undefined''"
| "to_string Null = ''null''"
| "to_string (Bool b) = (if b then ''true'' else ''false'')"
| "to_string (Num s) = s"
| "to_string (Str s) = s"
| "to_string (Arr xs) =
     join (map (\<lambda>x. if x = Undefined \<or> x = Null then [] else to_string x) xs)"
| "to_string (Obj fs) = ''[object Object]''"

text \<open>The nesting depth of a value; the recursion of the flattening pass descends it.\<close>

fun height :: "json \<Rightarrow> nat" where
  "height (Arr xs) = Suc (foldr (\<lambda>x. max (height x)) xs 0)"
| "height (Obj fs) = Suc (foldr (\<lambda>p. max (height (snd p))) fs 0)"
| "height v = 0"

section \<open>Store, serializers and state\<close>

text \<open>
  What the mixin reads of its collaborators. A relationship is what
  \<^verbatim>\<open>type.eachRelationship\<close> passes to its callback: \<^verbatim>\<open>key\<close>,
  \<^verbatim>\<open>relationship.kind\<close> and \<^verbatim>\<open>relationship.type.typeKey\<close>. A serializer has its
  \<^verbatim>\<open>attrs\<close> (a JSON object, \<open>Undefined\<close> when not configured),
  \<^verbatim>\<open>primaryKey\<close>, \<^verbatim>\<open>clientIdKey\<close> and the two key transforms
  \<^verbatim>\<open>keyForAttribute\<close> and \<^verbatim>\<open>keyForRelationship\<close>, which the source file calls
  and does not define: they are parameters. The store resolves a type key to its
  serializer (\<^verbatim>\<open>store.serializerFor\<close>; serializers are numbered, and two type keys
  that resolve to the same number share one serializer instance and so one
  \<^verbatim>\<open>clientIdMap\<close>) and to its relationships in iteration order;
  \<^verbatim>\<open>Ember.String.pluralize\<close> is a parameter too.
\<close>

record relationship =
  key :: string
  kind :: string
  typeKey :: string

record serializer =
  attrs :: json
  primaryKey :: string
  clientIdKey :: string
  keyForAttribute :: "string \<Rightarrow> string"
  keyForRelationship :: "string \<Rightarrow> string \<Rightarrow> string"

record store =
  serializerFor :: "string \<Rightarrow> nat"
  serializers :: "nat \<Rightarrow> serializer"
  eachRelationship :: "string \<Rightarrow> relationship list"
  pluralize :: "string \<Rightarrow> string"

text \<open>
  An in-memory record: its guid (\<^verbatim>\<open>Ember.guidFor\<close>), the properties
  \<^verbatim>\<open>Ember.get\<close> reads, the payload its own \<^verbatim>\<open>serialize()\<close> returns, and its
  has-many relations.
\<close>

datatype model_record =
  ModelRecord (guidFor: string) (props: obj) (serialize: obj)
    (related: "(string \<times> model_record list) list")

text \<open>
  The mutable state: the top-level \<^verbatim>\<open>payload\<close> object of the normalization in
  progress, the \<^verbatim>\<open>clientIdMap\<close> of every serializer, and the calls
  \<^verbatim>\<open>clientRecord.adapterWillCommit(); store.didSaveRecord(clientRecord, data)\<close> made so
  far, in order.
\<close>

record state =
  payload :: obj
  clientIdMap :: "nat \<Rightarrow> (string \<times> model_record) list"
  didSaveRecord :: "(model_record \<times> json) list"

text \<open>
  \<^verbatim>\<open>clientIdMap\<close> is a plain object \<^verbatim>\<open>{}\<close>, and the key of the read
  \<^verbatim>\<open>parentSerializer.clientIdMap[clientId]\<close> comes from the payload. A key that is not
  an own property still finds the members every object inherits from
  \<^verbatim>\<open>Object.prototype\<close>: the seven of ECMAScript 5.1, section 15.2.4, and
  \<^verbatim>\<open>__proto__\<close> and the four legacy accessor methods that the engines add. All are
  functions or objects, so truthy, and without an \<^verbatim>\<open>adapterWillCommit\<close> method.
\<close>

datatype 'a lookup = Own 'a | Inherited | Absent

definition object_prototype_members :: "string list" where
  "object_prototype_members =
     [''constructor'', ''toString'', ''toLocaleString'', ''valueOf'',
      ''hasOwnProperty'', ''isPrototypeOf'', ''propertyIsEnumerable'',
      ''__proto__'', ''__defineGetter__'', ''__defineSetter__'',
      ''__lookupGetter__'', ''__lookupSetter__'']"

definition lookup_clientId ::
  "(string \<times> model_record) list \<Rightarrow> string \<Rightarrow> model_record lookup" where
  "lookup_clientId m k =
     (case map_of m k of
        Some r \<Rightarrow> Own r
      | None \<Rightarrow> if k \<in> set object_prototype_members then Inherited else Absent)"

section \<open>The outbound pass: \<^verbatim>\<open>createClientId\<close> and \<^verbatim>\<open>serializeHasMany\<close>\<close>

text \<open>
  \<^verbatim>\<open>createClientId: function (record) { var guid = Ember.guidFor(record);
  this.clientIdMap[guid] = record; return guid; }\<close>
\<close>

definition createClientId :: "nat \<Rightarrow> model_record \<Rightarrow> state \<Rightarrow> string \<times> state" where
  "createClientId ser record s =
     (guidFor record,
      s\<lparr>clientIdMap := (clientIdMap s)
           (ser := AList.update (guidFor record) record (clientIdMap s ser))\<rparr>)"

text \<open>
  \<^verbatim>\<open>embed = attrs && attrs[key] && attrs[key].embedded === 'always'\<close>
\<close>

definition embedded_always :: "json \<Rightarrow> string \<Rightarrow> bool" where
  "embedded_always a k \<longleftrightarrow>
     truthy a \<and> truthy (read_prop a k) \<and> read_prop (read_prop a k) ''embedded'' = Str ''always''"

text \<open>
  The callback of \<^verbatim>\<open>get(record, key).map(...)\<close>, lines 79 to 92, for one related
  record: \<^verbatim>\<open>data = relation.serialize()\<close>, then the primary key or a fresh client id
  is attached. \<^verbatim>\<open>primaryKey\<close> and \<^verbatim>\<open>clientIdKey\<close> are those of the serializer
  the method runs on.
\<close>

definition serialize_relation ::
  "store \<Rightarrow> nat \<Rightarrow> model_record \<Rightarrow> state \<Rightarrow> obj \<times> state" where
  "serialize_relation st ser relation s =
     (if truthy (read_prop (Obj (props relation)) (primaryKey (serializers st ser)))
      then (AList.update (primaryKey (serializers st ser))
              (read_prop (Obj (props relation)) (primaryKey (serializers st ser)))
              (serialize relation), s)
      else (AList.update (clientIdKey (serializers st ser))
              (Str (fst (createClientId ser relation s))) (serialize relation),
            snd (createClientId ser relation s)))"

fun map_relations ::
  "store \<Rightarrow> nat \<Rightarrow> model_record list \<Rightarrow> state \<Rightarrow> obj list \<times> state" where
  "map_relations st ser [] s = ([], s)"
| "map_relations st ser (relation # relations) s =
     (case serialize_relation st ser relation s of
        (data, s') \<Rightarrow>
          (case map_relations st ser relations s' of
             (datas, s'') \<Rightarrow> (data # datas, s'')))"

text \<open>
  \<^verbatim>\<open>serializeHasMany: function(record, json, relationship)\<close>. It returns nothing; its
  effects are on \<^verbatim>\<open>json\<close> and on the serializer's \<^verbatim>\<open>clientIdMap\<close>.
  \<^verbatim>\<open>get(record, key)\<close> of a relation the record does not have is
  \<^verbatim>\<open>undefined\<close>, whose \<^verbatim>\<open>.map\<close> throws.
\<close>

definition serializeHasMany ::
  "store \<Rightarrow> nat \<Rightarrow> model_record \<Rightarrow> obj \<Rightarrow> relationship \<Rightarrow> state \<Rightarrow> error + (obj \<times> state)" where
  "serializeHasMany st ser record js r s =
     (if embedded_always (attrs (serializers st ser)) (key r) then
        (case map_of (related record) (key r) of
           None \<Rightarrow> Inl TypeError
         | Some relations \<Rightarrow>
             Inr (AList.update (keyForAttribute (serializers st ser) (key r))
                    (Arr (map Obj (fst (map_relations st ser relations s)))) js,
                  snd (map_relations st ser relations s)))
      else Inr (js, s))"

section \<open>The inbound pass: \<^verbatim>\<open>updatePayloadWithEmbedded\<close>\<close>

text \<open>
  \<^verbatim>\<open>config && (config.embedded === 'always' || config.embedded === 'load')\<close>
\<close>

definition is_embedded :: "json \<Rightarrow> bool" where
  "is_embedded config \<longleftrightarrow>
     truthy config \<and>
     (read_prop config ''embedded'' = Str ''always'' \<or> read_prop config ''embedded'' = Str ''load'')"

text \<open>The local variables of the relationship callback, lines 151 to 153.\<close>

definition embeddedTypeKey :: "store \<Rightarrow> relationship \<Rightarrow> string" where
  "embeddedTypeKey st r = ''_'' @ pluralize st (typeKey r)"

definition expandedKey :: "store \<Rightarrow> nat \<Rightarrow> relationship \<Rightarrow> string" where
  "expandedKey st ser r = keyForRelationship (serializers st ser) (key r) (kind r)"

definition attribute :: "store \<Rightarrow> nat \<Rightarrow> relationship \<Rightarrow> string" where
  "attribute st ser r = keyForAttribute (serializers st ser) (key r)"

text \<open>
  \<^verbatim>\<open>payload[embeddedTypeKey] = payload[embeddedTypeKey] || [];\<close>
\<close>

definition ensure_bucket :: "string \<Rightarrow> state \<Rightarrow> state" where
  "ensure_bucket k s =
     (if truthy (read_prop (Obj (payload s)) k) then s
      else s\<lparr>payload := AList.update k (Arr []) (payload s)\<rparr>)"

text \<open>
  Lines 166 to 179, the body of the loop over the embedded children after the recursive
  call: \<^verbatim>\<open>ids.push(data[primaryKey])\<close>, the lookup of the child's client id in the
  parent serializer's map, and then either the save confirmation with the deletion of the
  map entry, or \<^verbatim>\<open>payload[embeddedTypeKey].push(data)\<close>, which throws unless the bucket
  is an array.
\<close>

definition sideload_or_reconcile ::
  "store \<Rightarrow> nat \<Rightarrow> string \<Rightarrow> string \<Rightarrow> json \<Rightarrow> json list \<Rightarrow> state
     \<Rightarrow> error + (json list \<times> state)" where
  "sideload_or_reconcile st parentSerializer pk bucket data ids s =
     (case get_prop data pk of
        Inl e \<Rightarrow> Inl e
      | Inr i \<Rightarrow>
          (case lookup_clientId (clientIdMap s parentSerializer)
                  (to_string (read_prop data (clientIdKey (serializers st parentSerializer)))) of
             Own clientRecord \<Rightarrow>
               Inr (ids @ [i],
                    s\<lparr>didSaveRecord := didSaveRecord s @ [(clientRecord, data)],
                      clientIdMap := (clientIdMap s)
                        (parentSerializer :=
                           AList.delete
                             (to_string (read_prop data (clientIdKey (serializers st parentSerializer))))
                             (clientIdMap s parentSerializer))\<rparr>)
           | Inherited \<Rightarrow> Inl TypeError
           | Absent \<Rightarrow>
               (case read_prop (Obj (payload s)) bucket of
                  Arr xs \<Rightarrow>
                    Inr (ids @ [i],
                         s\<lparr>payload := AList.update bucket (Arr (xs @ [data])) (payload s)\<rparr>)
                | _ \<Rightarrow> Inl TypeError)))"

text \<open>
  \<^verbatim>\<open>function updatePayloadWithEmbedded(store, serializer, type, partial, payload)\<close>.
  The object \<^verbatim>\<open>partial\<close> is updated in place by the source; the model returns the
  updated node. \<open>relationships_loop\<close> is \<^verbatim>\<open>type.eachRelationship(...)\<close>,
  \<open>embedded_relationship\<close> its callback (lines 138 to 185) and \<open>forEach_embedded\<close>
  the loop \<^verbatim>\<open>forEach(partial[attribute], ...)\<close> of lines 162 to 180. Inside the
  callback \<^verbatim>\<open>this\<close>, \<^verbatim>\<open>attrs\<close>, \<^verbatim>\<open>clientIdKey\<close> and
  \<^verbatim>\<open>parentSerializer\<close> belong to the serializer of the call, and
  \<^verbatim>\<open>primaryKey\<close> to the serializer of the relationship's type.
\<close>

function updatePayloadWithEmbedded ::
    "store \<Rightarrow> nat \<Rightarrow> string \<Rightarrow> json \<Rightarrow> state \<Rightarrow> error + (json \<times> state)"
  and relationships_loop ::
    "store \<Rightarrow> nat \<Rightarrow> relationship list \<Rightarrow> json \<Rightarrow> state \<Rightarrow> error + (json \<times> state)"
  and embedded_relationship ::
    "store \<Rightarrow> nat \<Rightarrow> relationship \<Rightarrow> json \<Rightarrow> state \<Rightarrow> error + (json \<times> state)"
  and forEach_embedded ::
    "store \<Rightarrow> nat \<Rightarrow> relationship \<Rightarrow> json list \<Rightarrow> json list \<Rightarrow> state
       \<Rightarrow> error + (json list \<times> state)"
where
  "updatePayloadWithEmbedded st ser ty partial s =
     (if \<not> truthy (attrs (serializers st ser)) then Inr (partial, s)
      else relationships_loop st ser (eachRelationship st ty) partial s)"
| "relationships_loop st ser [] partial s = Inr (partial, s)"
| "relationships_loop st ser (r # rs) partial s =
     (case embedded_relationship st ser r partial s of
        Inl e \<Rightarrow> Inl e
      | Inr (partial', s') \<Rightarrow> relationships_loop st ser rs partial' s')"
| "embedded_relationship st ser r partial s =
     (if kind r \<noteq> ''hasMany'' then Inr (partial, s)
      else if is_embedded (read_prop (attrs (serializers st ser)) (key r)) then
        (case get_prop partial (attribute st ser r) of
           Inl e \<Rightarrow> Inl e
         | Inr v \<Rightarrow>
             if \<not> truthy v then Inr (partial, s)
             else
               (case v of
                  Arr datas \<Rightarrow>
                    (case forEach_embedded st ser r datas []
                            (ensure_bucket (embeddedTypeKey st r) s) of
                       Inl e \<Rightarrow> Inl e
                     | Inr (ids, s') \<Rightarrow>
                         Inr (delete_prop (set_prop partial (expandedKey st ser r) (Arr ids))
                                (attribute st ser r), s'))
                | _ \<Rightarrow> Inl NotModelled))
      else Inr (partial, s))"
| "forEach_embedded st ser r [] ids s = Inr (ids, s)"
| "forEach_embedded st ser r (data # datas) ids s =
     (case updatePayloadWithEmbedded st (serializerFor st (typeKey r)) (typeKey r) data s of
        Inl e \<Rightarrow> Inl e
      | Inr (data', s') \<Rightarrow>
          (case sideload_or_reconcile st ser
                  (primaryKey (serializers st (serializerFor st (typeKey r))))
                  (embeddedTypeKey st r) data' ids s' of
             Inl e \<Rightarrow> Inl e
           | Inr (ids', s'') \<Rightarrow> forEach_embedded st ser r datas ids' s''))"
  by pat_completeness auto

text \<open>
  \<^verbatim>\<open>extractSingle\<close> up to its call of the base method on line 108 (the whole
  method, with the base method, is \<open>extractSingle_with_super\<close> below): the root node is
  read under
  \<^verbatim>\<open>keyForAttribute(primaryType.typeKey)\<close> and flattened. The result is the flattened
  root and the state whose \<open>payload\<close> is the object handed to the base method: the
  sideload buckets and, under the root key, the flattened root (in the source the very
  object that \<^verbatim>\<open>payload[root]\<close> refers to; the pass itself works on the node and
  never reads the contents of \<^verbatim>\<open>payload[root]\<close>).
\<close>

definition extractSingle ::
  "store \<Rightarrow> nat \<Rightarrow> string \<Rightarrow> obj \<Rightarrow> state \<Rightarrow> error + (json \<times> state)" where
  "extractSingle st ser primaryType pl s =
     (case updatePayloadWithEmbedded st ser primaryType
             (read_prop (Obj pl) (keyForAttribute (serializers st ser) primaryType))
             (s\<lparr>payload := pl\<rparr>) of
        Inl e \<Rightarrow> Inl e
      | Inr (partial', s') \<Rightarrow>
          Inr (partial',
               s'\<lparr>payload :=
                    (case map_of pl (keyForAttribute (serializers st ser) primaryType) of
                       None \<Rightarrow> payload s'
                     | Some v \<Rightarrow>
                         AList.update (keyForAttribute (serializers st ser) primaryType) partial'
                           (payload s'))\<rparr>))"

text \<open>
  Modelled from the spec: the base method \<^verbatim>\<open>this._super\<close>, whose value
  \<^verbatim>\<open>extractSingle\<close> returns on line 108, is not in the source file. The
  specification has it as "the base (non-embedded) per-field decode of the resulting flat
  node plus ingestion of collected sideloads" (section 4.1), and the decode as the
  "external-field-name transform (attribute/key casing)" of section 6 read backwards.
  \<open>decode_field\<close> moves the value of one field from its external name to its internal
  name; a node without the external field, or a field whose two names are the same, is
  left as it is.
\<close>

definition decode_field :: "string \<Rightarrow> string \<Rightarrow> json \<Rightarrow> json" where
  "decode_field internal external node =
     (if internal = external \<or> read_prop node external = Undefined then node
      else delete_prop (set_prop node internal (read_prop node external)) external)"

text \<open>
  Modelled from the spec: the per-field decode of a node of the type \<open>ty\<close>, part of the
  base method that is not in the source file. Every attribute of the type is decoded from
  \<^verbatim>\<open>keyForAttribute\<close> of its name and every relationship from
  \<^verbatim>\<open>keyForRelationship\<close> of its key and kind. The attribute list of a type (the
  "attribute list" of a type descriptor, section 3) is a parameter.
\<close>

definition base_decode :: "(string \<Rightarrow> string list) \<Rightarrow> store \<Rightarrow> nat \<Rightarrow> string \<Rightarrow> json \<Rightarrow> json" where
  "base_decode attributes st ser ty node =
     fold (\<lambda>r. decode_field (key r) (keyForRelationship (serializers st ser) (key r) (kind r)))
       (eachRelationship st ty)
       (fold (\<lambda>a. decode_field a (keyForAttribute (serializers st ser) a)) (attributes ty) node)"

text \<open>
  Modelled from the spec: \<^verbatim>\<open>extractSingle\<close> with the base method that is not in the
  source file, that is the pass above followed by the decode of the flat root and, as the
  ingestion of the sideloads, the decode of every entry of every other top-level array by
  the serializer of the type its key stands for. The type of a top-level key is a
  parameter. The result is the root the method returns and the state whose \<open>payload\<close>
  holds the decoded root and sideloads; the keys of the payload are those the pass left.
\<close>

definition extractSingle_with_super ::
  "(string \<Rightarrow> string list) \<Rightarrow> (string \<Rightarrow> string) \<Rightarrow> store \<Rightarrow> nat \<Rightarrow> string \<Rightarrow> obj \<Rightarrow> state
     \<Rightarrow> error + (json \<times> state)" where
  "extractSingle_with_super attributes typeForRoot st ser primaryType pl s =
     (case extractSingle st ser primaryType pl s of
        Inl e \<Rightarrow> Inl e
      | Inr (root, s') \<Rightarrow>
          Inr (base_decode attributes st ser primaryType root,
               s'\<lparr>payload :=
                    map (\<lambda>(k, v).
                           (k, if k = keyForAttribute (serializers st ser) primaryType
                               then base_decode attributes st ser primaryType v
                               else case v of
                                      Arr xs \<Rightarrow>
                                        Arr (map (base_decode attributes st
                                                    (serializerFor st (typeForRoot k)) (typeForRoot k)) xs)
                                    | _ \<Rightarrow> v))
                      (payload s')\<rparr>))"

text \<open>
  The field names the pass writes or deletes on a node of type \<open>ty\<close>: for every
  has-many relationship configured as embedded, \<^verbatim>\<open>expandedKey\<close> and
  \<^verbatim>\<open>attribute\<close>.
\<close>

definition rewritten_keys :: "store \<Rightarrow> nat \<Rightarrow> string \<Rightarrow> string list" where
  "rewritten_keys st ser ty =
     concat (map (\<lambda>r. if kind r = ''hasMany''
                          \<and> is_embedded (read_prop (attrs (serializers st ser)) (key r))
                       then [expandedKey st ser r, attribute st ser r] else [])
               (eachRelationship st ty))"

section \<open>The flat form of a tree, in the words of the specification\<close>

text \<open>
  These two functions are not translations of the source: they say, for a node of a type
  that embeds its own type, what the specification says the pass is to produce.
  \<open>spec_flat_form a e pk v\<close> is the node \<open>v\<close> with "the relation's nested field
  replaced by the ordered id list" and "the embedded-data field removed" (section 4.1,
  step 3), where \<open>a\<close> is the field of the embedded data, \<open>e\<close> the field of the id list
  and the id of a child is the field \<open>pk\<close> of its flat form.
  \<open>spec_descendants a e pk v\<close> lists "every descendant" of \<open>v\<close> in flat form, once
  per occurrence, the descendants of a child before the child ("depth-first").
\<close>

function spec_flat_form :: "string \<Rightarrow> string \<Rightarrow> string \<Rightarrow> json \<Rightarrow> json" where
  "spec_flat_form a e pk v =
     (case read_prop v a of
        Arr cs \<Rightarrow> delete_prop (set_prop v e (Arr (map (\<lambda>c. read_prop (spec_flat_form a e pk c) pk) cs))) a
      | _ \<Rightarrow> v)"
  by pat_completeness auto

function spec_descendants :: "string \<Rightarrow> string \<Rightarrow> string \<Rightarrow> json \<Rightarrow> json list" where
  "spec_descendants a e pk v =
     (case read_prop v a of
        Arr cs \<Rightarrow> concat (map (\<lambda>c. spec_descendants a e pk c @ [spec_flat_form a e pk c]) cs)
      | _ \<Rightarrow> [])"
  by pat_completeness auto



section \<open>The store of the integration tests\<close>

text \<open>
  The models of \<^verbatim>\<open>embedded_records_mixin_test.js\<close>: \<^verbatim>\<open>HomePlanet\<close> has many
  \<^verbatim>\<open>villains\<close> (super villains), \<^verbatim>\<open>SuperVillain\<close> belongs to a home planet and has
  many \<^verbatim>\<open>evilMinions\<close>, \<^verbatim>\<open>EvilMinion\<close> belongs to a super villain, and
  \<^verbatim>\<open>Comment\<close> has many \<^verbatim>\<open>children\<close> that are comments. Serializer 1 is the home
  planet's, with \<^verbatim>\<open>attrs: {villains: {embedded: 'always'}}\<close>, serializer 2 the
  comment's, with \<^verbatim>\<open>attrs: {children: {embedded: 'always'}}\<close>, serializer 3 a home
  planet serializer with \<^verbatim>\<open>{villains: {embedded: 'load'}}\<close>, and serializer 0 the
  application serializer, which has no \<^verbatim>\<open>attrs\<close>. The key transforms are those of the
  \<^verbatim>\<open>ActiveModelSerializer\<close> the tests extend, given as tables on the names the tests
  use: an attribute key is decamelized, a has-many key is singularized and gets
  \<^verbatim>\<open>_ids\<close>, a belongs-to key gets \<^verbatim>\<open>_id\<close>.
\<close>

definition test_keyForAttribute :: "string \<Rightarrow> string" where
  "test_keyForAttribute k =
     (case map_of [(''homePlanet'', ''home_planet''), (''superVillain'', ''super_villain''),
                   (''evilMinion'', ''evil_minion''), (''evilMinions'', ''evil_minions''),
                   (''firstName'', ''first_name''), (''lastName'', ''last_name'')] k of
        Some k' \<Rightarrow> k' | None \<Rightarrow> k)"

definition test_keyForRelationship :: "string \<Rightarrow> string \<Rightarrow> string" where
  "test_keyForRelationship k kd =
     (if kd = ''belongsTo'' then test_keyForAttribute k @ ''_id''
      else if kd = ''hasMany'' then
        (case map_of [(''villains'', ''villain_ids''), (''evilMinions'', ''evil_minion_ids''),
                      (''children'', ''child_ids'')] k of
           Some k' \<Rightarrow> k' | None \<Rightarrow> test_keyForAttribute k @ ''_ids'')
      else test_keyForAttribute k)"

definition test_serializer :: "json \<Rightarrow> serializer" where
  "test_serializer a =
     \<lparr>attrs = a, primaryKey = ''id'', clientIdKey = ''_clientId'',
      keyForAttribute = test_keyForAttribute, keyForRelationship = test_keyForRelationship\<rparr>"

definition test_store :: store where
  "test_store =
     \<lparr>serializerFor = (\<lambda>t. if t = ''homePlanet'' then 1 else if t = ''comment'' then 2 else 0),
      serializers = (\<lambda>n.
         if n = 1 then test_serializer (Obj [(''villains'', Obj [(''embedded'', Str ''always'')])])
         else if n = 2 then test_serializer (Obj [(''children'', Obj [(''embedded'', Str ''always'')])])
         else if n = 3 then test_serializer (Obj [(''villains'', Obj [(''embedded'', Str ''load'')])])
         else test_serializer Undefined),
      eachRelationship = (\<lambda>t.
         if t = ''homePlanet'' then
           [\<lparr>key = ''villains'', kind = ''hasMany'', typeKey = ''superVillain''\<rparr>]
         else if t = ''superVillain'' then
           [\<lparr>key = ''homePlanet'', kind = ''belongsTo'', typeKey = ''homePlanet''\<rparr>,
            \<lparr>key = ''evilMinions'', kind = ''hasMany'', typeKey = ''evilMinion''\<rparr>]
         else if t = ''evilMinion'' then
           [\<lparr>key = ''superVillain'', kind = ''belongsTo'', typeKey = ''superVillain''\<rparr>]
         else if t = ''comment'' then
           [\<lparr>key = ''children'', kind = ''hasMany'', typeKey = ''comment''\<rparr>]
         else []),
      pluralize = (\<lambda>w. w @ ''s'')\<rparr>"

definition villains :: relationship where
  "villains = \<lparr>key = ''villains'', kind = ''hasMany'', typeKey = ''superVillain''\<rparr>"

definition empty_state :: state where
  "empty_state = \<lparr>payload = [], clientIdMap = (\<lambda>n. []), didSaveRecord = []\<rparr>"

text \<open>
  \<^verbatim>\<open>tom = createRecord(SuperVillain, {firstName: "Tom", lastName: "Dale",
  homePlanet: league})\<close>, without an id, and
  \<^verbatim>\<open>league = createRecord(HomePlanet, {name: "Villain League", id: "123"})\<close>.
\<close>

definition tom :: model_record where
  "tom = ModelRecord ''ember1'' [(''firstName'', Str ''Tom''), (''lastName'', Str ''Dale'')]
           [(''first_name'', Str ''Tom''), (''last_name'', Str ''Dale''),
            (''home_planet_id'', Str ''123'')] []"

definition league :: model_record where
  "league = ModelRecord ''ember0'' [(''name'', Str ''Villain League''), (''id'', Str ''123'')]
              [(''name'', Str ''Villain League'')] [(''villains'', [tom])]"

text \<open>
  The payload the server returns for \<^verbatim>\<open>tom\<close> once saved, echoing his client id, and
  the state in which that client id is pending in the home planet serializer's map.
\<close>

definition tom_saved :: json where
  "tom_saved = Obj [(''first_name'', Str ''Tom''), (''_clientId'', Str ''ember1''), (''id'', Str ''1'')]"

definition tom_pending :: state where
  "tom_pending = empty_state\<lparr>clientIdMap := (\<lambda>n. if n = 1 then [(''ember1'', tom)] else [])\<rparr>"

text \<open>
  \<^verbatim>\<open>erik\<close> is a villain that has been saved, with the id \<^verbatim>\<open>"4"\<close>; the second league
  has him and \<^verbatim>\<open>tom\<close>.
\<close>

definition erik :: model_record where
  "erik = ModelRecord ''ember2'' [(''firstName'', Str ''Erik''), (''id'', Str ''4'')]
            [(''first_name'', Str ''Erik'')] []"

definition league_of_two :: model_record where
  "league_of_two =
     ModelRecord ''ember0'' [(''name'', Str ''Villain League''), (''id'', Str ''123'')]
       [(''name'', Str ''Villain League'')] [(''villains'', [tom, erik])]"

text \<open>The relationship of a comment to its replies, and three replies.\<close>

definition comment_children :: relationship where
  "comment_children = \<lparr>key = ''children'', kind = ''hasMany'', typeKey = ''comment''\<rparr>"

definition three_replies :: "json list" where
  "three_replies =
     [Obj [(''id'', Str ''2''), (''body'', Str ''World'')],
      Obj [(''id'', Str ''3''), (''body'', Str ''Foo'')],
      Obj [(''id'', Str ''4''), (''body'', Str ''Another'')]]"

text \<open>
  The response to the save of \<^verbatim>\<open>league\<close>: the payload \<^verbatim>\<open>serialize(league)\<close> under
  the root key, with the id \<^verbatim>\<open>"1"\<close> the server has given to \<^verbatim>\<open>tom\<close>.
\<close>

definition league_response :: obj where
  "league_response =
     [(''home_planet'',
       Obj [(''name'', Str ''Villain League''),
            (''villains'',
               Arr [Obj [(''first_name'', Str ''Tom''), (''last_name'', Str ''Dale''),
                         (''home_planet_id'', Str ''123''), (''_clientId'', Str ''ember1''),
                         (''id'', Str ''1'')]])])]"

text \<open>
  The payload of the first test, \<^verbatim>\<open>extractSingle with embedded objects\<close>, without the
  villain's last name.
\<close>

definition umber_response :: obj where
  "umber_response =
     [(''home_planet'',
       Obj [(''id'', Str ''1''), (''name'', Str ''Umber''),
            (''villains'', Arr [Obj [(''id'', Str ''1''), (''first_name'', Str ''Tom'')]])])]"



text \<open>
  The attributes of the models of the tests, and the types of the top-level keys of their
  payloads.
\<close>

definition test_attributes :: "string \<Rightarrow> string list" where
  "test_attributes ty =
     (if ty = ''superVillain'' then [''firstName'', ''lastName'']
      else if ty = ''homePlanet'' then [''name'']
      else if ty = ''evilMinion'' then [''name'']
      else if ty = ''comment'' then [''body'', ''root'']
      else [])"

definition test_typeForRoot :: "string \<Rightarrow> string" where
  "test_typeForRoot k =
     (case map_of [(''home_planet'', ''homePlanet''), (''_superVillains'', ''superVillain''),
                   (''_evilMinions'', ''evilMinion''), (''comment'', ''comment''),
                   (''_comments'', ''comment'')] k of
        Some t \<Rightarrow> t | None \<Rightarrow> k)"

section \<open>Termination of the flattening pass\<close>

text \<open>
  The pass recurses into the children of the node at hand, and what it writes back (an
  array of fields of the flattened children) is never nested deeper than what it read:
  the height of the node does not grow, which is what the recursion after a rewritten
  relationship needs.
\<close>

lemma height_mem_Arr: "x \<in> set xs \<Longrightarrow> height x \<le> foldr (\<lambda>x. max (height x)) xs 0"
  by (induction xs) auto

lemma hmax_le: "(\<forall>x\<in>set xs. height x \<le> n) \<Longrightarrow> foldr (\<lambda>x. max (height x)) xs 0 \<le> n"
  by (induction xs) auto

lemma height_map_of: "map_of fs k = Some v \<Longrightarrow> height v \<le> foldr (\<lambda>p. max (height (snd p))) fs 0"
  by (induction fs) (auto split: if_splits)

lemma height_read_prop: "height (read_prop v k) \<le> height v"
  by (cases v) (auto split: option.splits dest: height_map_of)

lemma height_read_prop_Arr: "read_prop v k = Arr xs \<Longrightarrow> height (Arr xs) < height v"
  by (cases v) (auto split: option.splits dest: height_map_of)

lemma height_update:
  "foldr (\<lambda>p. max (height (snd p))) (AList.update k v fs) 0
     \<le> max (height v) (foldr (\<lambda>p. max (height (snd p))) fs 0)"
  by (induction fs) auto

lemma height_delete:
  "foldr (\<lambda>p. max (height (snd p))) (AList.delete k fs) 0
     \<le> foldr (\<lambda>p. max (height (snd p))) fs 0"
  by (induction fs) auto

lemma height_set_prop: "height v < height p \<Longrightarrow> height (set_prop p k v) \<le> height p"
proof (cases p)
  case (Obj fs)
  assume "height v < height p"
  with Obj have "height v \<le> foldr (\<lambda>p. max (height (snd p))) fs 0" by simp
  with height_update [of k v fs] Obj show ?thesis by simp
qed simp_all

lemma height_delete_prop: "height (delete_prop p k) \<le> height p"
  using height_delete [of k] by (cases p) auto

lemma sideload_or_reconcile_ids:
  "sideload_or_reconcile st ser pk b data ids s = Inr (ids', s') \<Longrightarrow>
     \<exists>i. ids' = ids @ [i] \<and> height i \<le> height data"
  by (cases data)
     (auto simp: sideload_or_reconcile_def Let_def height_read_prop
           split: sum.splits lookup.splits json.splits option.splits dest: height_map_of)

lemma height_partial:
  "updatePayloadWithEmbedded_relationships_loop_embedded_relationship_forEach_embedded_dom
      (Inl (Inl (st, ser, ty, partial, s))) \<Longrightarrow>
     (\<forall>p' s'. updatePayloadWithEmbedded st ser ty partial s = Inr (p', s') \<longrightarrow> height p' \<le> height partial)"
  "updatePayloadWithEmbedded_relationships_loop_embedded_relationship_forEach_embedded_dom
      (Inl (Inr (st, ser, rs, partial, s))) \<Longrightarrow>
     (\<forall>p' s'. relationships_loop st ser rs partial s = Inr (p', s') \<longrightarrow> height p' \<le> height partial)"
  "updatePayloadWithEmbedded_relationships_loop_embedded_relationship_forEach_embedded_dom
      (Inr (Inl (st, ser, r, partial, s))) \<Longrightarrow>
     (\<forall>p' s'. embedded_relationship st ser r partial s = Inr (p', s') \<longrightarrow> height p' \<le> height partial)"
  "updatePayloadWithEmbedded_relationships_loop_embedded_relationship_forEach_embedded_dom
      (Inr (Inr (st, ser, r, datas, ids, s))) \<Longrightarrow>
     (\<forall>ids' s'. forEach_embedded st ser r datas ids s = Inr (ids', s') \<longrightarrow>
        (\<forall>x\<in>set ids'. x \<in> set ids \<or> height x \<le> foldr (\<lambda>x. max (height x)) datas 0))"
proof (induction rule: updatePayloadWithEmbedded_relationships_loop_embedded_relationship_forEach_embedded.pinduct)
  case (1 st ser ty partial s)
  then show ?case by (auto simp: updatePayloadWithEmbedded.psimps split: if_splits)
next
  case (2 st ser partial s)
  then show ?case by (simp add: relationships_loop.psimps)
next
  case (3 st ser r rs partial s)
  show ?case
  proof (intro allI impI)
    fix p' s'
    assume a: "relationships_loop st ser (r # rs) partial s = Inr (p', s')"
    then obtain p1 s1 where b: "embedded_relationship st ser r partial s = Inr (p1, s1)"
      and c: "relationships_loop st ser rs p1 s1 = Inr (p', s')"
      using 3(1) by (auto simp: relationships_loop.psimps split: sum.splits)
    from 3(2) b have "height p1 \<le> height partial" by simp
    moreover from 3(3) [OF b refl] c have "height p' \<le> height p1" by simp
    ultimately show "height p' \<le> height partial" by simp
  qed
next
  case (4 st ser r partial s)
  show ?case
  proof (intro allI impI)
    fix p' s'
    assume a: "embedded_relationship st ser r partial s = Inr (p', s')"
    show "height p' \<le> height partial"
    proof (cases "p' = partial")
      case True then show ?thesis by simp
    next
      case False
      with a 4(1) obtain v datas ids where
        h: "kind r = ''hasMany''" "is_embedded (read_prop (attrs (serializers st ser)) (key r))"
           "get_prop partial (attribute st ser r) = Inr v" "truthy v" "v = Arr datas"
           "forEach_embedded st ser r datas [] (ensure_bucket (embeddedTypeKey st r) s) = Inr (ids, s')"
           "p' = delete_prop (set_prop partial (expandedKey st ser r) (Arr ids)) (attribute st ser r)"
        by (auto simp: embedded_relationship.psimps split: if_splits sum.splits json.splits)
      from 4(2) [OF _ h(2) h(3) _ h(5)] h(1,4,6)
      have "\<forall>x\<in>set ids. height x \<le> foldr (\<lambda>x. max (height x)) datas 0" by auto
      then have "height (Arr ids) \<le> height (Arr datas)" by (simp add: hmax_le)
      moreover from h(3,5) have "read_prop partial (attribute st ser r) = Arr datas"
        by (cases partial) auto
      then have "height (Arr datas) < height partial" by (rule height_read_prop_Arr)
      ultimately have "height (set_prop partial (expandedKey st ser r) (Arr ids)) \<le> height partial"
        by (intro height_set_prop) simp
      with height_delete_prop [of "set_prop partial (expandedKey st ser r) (Arr ids)" "attribute st ser r"] h(7)
      show ?thesis by simp
    qed
  qed
next
  case (5 st ser r ids s)
  then show ?case by (simp add: forEach_embedded.psimps)
next
  case (6 st ser r data datas ids s)
  show ?case
  proof (intro allI impI ballI)
    fix ids' s' x
    assume a: "forEach_embedded st ser r (data # datas) ids s = Inr (ids', s')" and x: "x \<in> set ids'"
    from a 6(1) obtain d1 s1 ids1 s2 where
      b: "updatePayloadWithEmbedded st (serializerFor st (typeKey r)) (typeKey r) data s = Inr (d1, s1)"
      and c: "sideload_or_reconcile st ser (primaryKey (serializers st (serializerFor st (typeKey r))))
                (embeddedTypeKey st r) d1 ids s1 = Inr (ids1, s2)"
      and d: "forEach_embedded st ser r datas ids1 s2 = Inr (ids', s')"
      by (auto simp: forEach_embedded.psimps split: sum.splits)
    from 6(2) b have hd: "height d1 \<le> height data" by simp
    from sideload_or_reconcile_ids [OF c] obtain i where i: "ids1 = ids @ [i]" "height i \<le> height d1" by blast
    from 6(3) [OF b refl c refl] d x
    have "x \<in> set ids1 \<or> height x \<le> foldr (\<lambda>x. max (height x)) datas 0" by simp
    with i hd show "x \<in> set ids \<or> height x \<le> foldr (\<lambda>x. max (height x)) (data # datas) 0"
      by auto
  qed
qed


termination updatePayloadWithEmbedded
proof (relation "inv_image (less_than <*lex*> less_than)
    (\<lambda>x. case x of
       Inl (Inl (st, ser, ty, partial, s)) \<Rightarrow> (height partial, Suc (length (eachRelationship st ty)))
     | Inl (Inr (st, ser, rs, partial, s)) \<Rightarrow> (height partial, length rs)
     | Inr (Inl (st, ser, r, partial, s)) \<Rightarrow> (height partial, 0)
     | Inr (Inr (st, ser, r, datas, ids, s)) \<Rightarrow> (height (Arr datas), length datas))", goal_cases)
  case 1
  show ?case by (intro wf_inv_image wf_lex_prod wf_less_than)
next
  case (2 st ser ty partial s)
  then show ?case by simp
next
  case (3 st ser r rs partial s)
  then show ?case by simp
next
  case (4 st ser r rs partial s x2 x y)
  then show ?case using height_partial(3) [of st ser r partial s] by auto
next
  case (5 st ser r partial s v datas)
  then have "read_prop partial (attribute st ser r) = Arr datas" by (cases partial) auto
  then have "height (Arr datas) < height partial" by (rule height_read_prop_Arr)
  then show ?case by simp
next
  case (6 st ser r data datas ids s)
  then show ?case by (simp add: less_Suc_eq_le)
next
  case (7 st ser r data datas ids s)
  then show ?case by auto
qed


text \<open>The functions of the specification descend the same way.\<close>

termination spec_flat_form
proof (relation "measure (\<lambda>(a, e, pk, v). height v)", goal_cases)
  case 1
  show ?case by simp
next
  case (2 a e pk v cs c)
  from 2(1) have "height (Arr cs) < height v" by (rule height_read_prop_Arr)
  moreover from 2(2) have "height c \<le> foldr (\<lambda>x. max (height x)) cs 0" by (rule height_mem_Arr)
  ultimately show ?case by simp
qed

termination spec_descendants
proof (relation "measure (\<lambda>(a, e, pk, v). height v)", goal_cases)
  case 1
  show ?case by simp
next
  case (2 a e pk v cs c)
  from 2(1) have "height (Arr cs) < height v" by (rule height_read_prop_Arr)
  moreover from 2(2) have "height c \<le> foldr (\<lambda>x. max (height x)) cs 0" by (rule height_mem_Arr)
  ultimately show ?case by simp
qed

declare spec_flat_form.simps [simp del] spec_descendants.simps [simp del]

section \<open>Evaluating the test store\<close>

lemmas test_defs = test_store_def test_serializer_def test_keyForAttribute_def
  test_keyForRelationship_def villains_def empty_state_def attribute_def expandedKey_def
  embeddedTypeKey_def

lemmas test_defs2 = test_defs comment_children_def three_replies_def

lemmas eval_defs = extractSingle_def sideload_or_reconcile_def lookup_clientId_def
  object_prototype_members_def ensure_bucket_def is_embedded_def

section \<open>Missing embedded data\<close>

text \<open>
  C8. When the payload node has no field under the relation's external name
  (\<^verbatim>\<open>keyForAttribute(key)\<close>), the relationship callback returns without an error and
  changes nothing: the node is returned as it was, and the state is the one it was
  given, so no sideload bucket has been created. This holds for every relationship, and
  so for every one configured as embedded.
\<close>

theorem missing_embedded_data_is_skipped:
  "map_of fs (attribute st ser r) = None \<Longrightarrow>
     embedded_relationship st ser r (Obj fs) s = Inr (Obj fs, s)"
  by simp

theorem missing_embedded_data_is_skipped_witness:
  "kind villains = ''hasMany''
   \<and> is_embedded (read_prop (attrs (serializers test_store 1)) (key villains))
   \<and> map_of [(''id'', Str ''1''), (''name'', Str ''Umber'')] (attribute test_store 1 villains) = None
   \<and> embedded_relationship test_store 1 villains
        (Obj [(''id'', Str ''1''), (''name'', Str ''Umber'')]) empty_state
      = Inr (Obj [(''id'', Str ''1''), (''name'', Str ''Umber'')], empty_state)"
proof -
  have h: "map_of [(''id'', Str ''1''), (''name'', Str ''Umber'')] (attribute test_store 1 villains) = None"
    by (simp add: test_defs)
  have "kind villains = ''hasMany''" by (simp add: villains_def)
  moreover have "is_embedded (read_prop (attrs (serializers test_store 1)) (key villains))"
    by (simp add: test_defs is_embedded_def)
  ultimately show ?thesis
    using h missing_embedded_data_is_skipped [OF h, of empty_state] by simp
qed

section \<open>Relations that are not embedded outbound\<close>

text \<open>
  C10. When the serializer's configuration of the relation is not
  \<^verbatim>\<open>{embedded: 'always'}\<close> (no \<^verbatim>\<open>attrs\<close>, no entry for the key, or another
  policy such as \<^verbatim>\<open>'load'\<close>), \<^verbatim>\<open>serializeHasMany\<close> leaves \<^verbatim>\<open>json\<close> as it
  was given, so the relation field is not written at all, and it leaves every
  \<^verbatim>\<open>clientIdMap\<close> as it was.
\<close>

theorem serializeHasMany_not_always:
  "\<not> embedded_always (attrs (serializers st ser)) (key r) \<Longrightarrow>
     serializeHasMany st ser record js r s = Inr (js, s)"
  by (simp add: serializeHasMany_def)

theorem serializeHasMany_not_always_witness:
  "\<not> embedded_always (attrs (serializers test_store 3)) (key villains)
   \<and> serializeHasMany test_store 3 league [(''name'', Str ''Villain League'')] villains empty_state
      = Inr ([(''name'', Str ''Villain League'')], empty_state)"
proof -
  have h: "\<not> embedded_always (attrs (serializers test_store 3)) (key villains)"
    by (simp add: test_defs embedded_always_def)
  show ?thesis
    using h serializeHasMany_not_always [OF h] by simp
qed

section \<open>Children that confirm a pending client id\<close>

text \<open>
  C2. When the value of a child node under the client id key is a key of the parent
  serializer's \<^verbatim>\<open>clientIdMap\<close>, the loop body records the child's primary-key value in
  the id list, hands the child's data to the save confirmation of the mapped record
  (\<^verbatim>\<open>adapterWillCommit\<close> and \<^verbatim>\<open>store.didSaveRecord(clientRecord, data)\<close>), deletes
  that entry and no other from the map, and leaves the payload, and with it every
  sideload bucket, as it was.
\<close>

theorem live_client_id_is_reconciled:
  assumes "map_of (clientIdMap s ser)
             (to_string (read_prop (Obj fs) (clientIdKey (serializers st ser)))) = Some clientRecord"
  shows "\<exists>s'. sideload_or_reconcile st ser pk bucket (Obj fs) ids s
               = Inr (ids @ [read_prop (Obj fs) pk], s')
           \<and> didSaveRecord s' = didSaveRecord s @ [(clientRecord, Obj fs)]
           \<and> map_of (clientIdMap s' ser) =
               (map_of (clientIdMap s ser))
                 (to_string (read_prop (Obj fs) (clientIdKey (serializers st ser))) := None)
           \<and> (\<forall>ser'. ser' \<noteq> ser \<longrightarrow> clientIdMap s' ser' = clientIdMap s ser')
           \<and> payload s' = payload s"
  using assms by (simp add: sideload_or_reconcile_def lookup_clientId_def delete_conv')

theorem live_client_id_is_reconciled_witness:
  "map_of (clientIdMap tom_pending 1)
     (to_string (read_prop tom_saved (clientIdKey (serializers test_store 1)))) = Some tom
   \<and> (\<exists>s'. sideload_or_reconcile test_store 1 ''id'' ''_superVillains'' tom_saved [] tom_pending
              = Inr ([Str ''1''], s')
          \<and> didSaveRecord s' = [(tom, tom_saved)]
          \<and> map_of (clientIdMap s' 1) ''ember1'' = None
          \<and> payload s' = [])"
proof -
  have h: "map_of (clientIdMap tom_pending 1)
     (to_string (read_prop (Obj [(''first_name'', Str ''Tom''), (''_clientId'', Str ''ember1''),
        (''id'', Str ''1'')]) (clientIdKey (serializers test_store 1)))) = Some tom"
    by (simp add: tom_pending_def test_defs)
  from live_client_id_is_reconciled [OF h, of "''id''" "''_superVillains''" "[]"]
  obtain s' where
    "sideload_or_reconcile test_store 1 ''id'' ''_superVillains'' tom_saved [] tom_pending
       = Inr ([Str ''1''], s')"
    "didSaveRecord s' = [(tom, tom_saved)]"
    "map_of (clientIdMap s' 1) ''ember1'' = None"
    "payload s' = []"
    by (auto simp: tom_saved_def tom_pending_def test_defs)
  with h show ?thesis unfolding tom_saved_def by blast
qed

section \<open>The identifier of a sideloaded child\<close>

text \<open>
  C3, as the code has it. A child that is appended to a sideload bucket is recorded in
  the id list by the value of its primary-key field, which is \<^verbatim>\<open>undefined\<close> when the
  child has no such field; the client id is not used in its place.
\<close>

theorem sideloaded_child_id:
  assumes "sideload_or_reconcile st ser pk bucket data ids s = Inr (ids', s')"
    and "lookup_clientId (clientIdMap s ser)
           (to_string (read_prop data (clientIdKey (serializers st ser)))) = Absent"
  shows "ids' = ids @ [read_prop data pk]
         \<and> (\<exists>xs. read_prop (Obj (payload s)) bucket = Arr xs
                 \<and> payload s' = AList.update bucket (Arr (xs @ [data])) (payload s))"
  using assms
  by (cases data) (auto simp: sideload_or_reconcile_def split: json.splits option.splits)

theorem sideloaded_child_id_witness:
  "sideload_or_reconcile test_store 1 ''id'' ''_superVillains''
       (Obj [(''id'', Str ''1''), (''first_name'', Str ''Tom'')]) []
       (empty_state\<lparr>payload := [(''_superVillains'', Arr [])]\<rparr>)
     = Inr ([Str ''1''],
            empty_state\<lparr>payload :=
              [(''_superVillains'', Arr [Obj [(''id'', Str ''1''), (''first_name'', Str ''Tom'')]])]\<rparr>)
   \<and> lookup_clientId (clientIdMap (empty_state\<lparr>payload := [(''_superVillains'', Arr [])]\<rparr>) 1)
         (to_string (read_prop (Obj [(''id'', Str ''1''), (''first_name'', Str ''Tom'')])
            (clientIdKey (serializers test_store 1)))) = Absent
   \<and> [Str ''1''] = [] @ [read_prop (Obj [(''id'', Str ''1''), (''first_name'', Str ''Tom'')]) ''id'']"
proof -
  have a: "sideload_or_reconcile test_store 1 ''id'' ''_superVillains''
       (Obj [(''id'', Str ''1''), (''first_name'', Str ''Tom'')]) []
       (empty_state\<lparr>payload := [(''_superVillains'', Arr [])]\<rparr>)
     = Inr ([Str ''1''],
            empty_state\<lparr>payload :=
              [(''_superVillains'', Arr [Obj [(''id'', Str ''1''), (''first_name'', Str ''Tom'')]])]\<rparr>)"
    by (simp add: test_defs eval_defs)
  have b: "lookup_clientId (clientIdMap (empty_state\<lparr>payload := [(''_superVillains'', Arr [])]\<rparr>) 1)
         (to_string (read_prop (Obj [(''id'', Str ''1''), (''first_name'', Str ''Tom'')])
            (clientIdKey (serializers test_store 1)))) = Absent"
    by (simp add: test_defs eval_defs)
  from sideloaded_child_id [OF a b] a b show ?thesis by blast
qed

text \<open>
  A child with a client id that is in no map and without the primary key \<^verbatim>\<open>id\<close>: it is
  sideloaded, and the id list holds \<^verbatim>\<open>undefined\<close>, not the client id.
\<close>

theorem placeholder_is_not_a_fallback_id:
  "extractSingle test_store 1 ''homePlanet''
     [(''home_planet'', Obj [(''id'', Str ''1''),
         (''villains'', Arr [Obj [(''_clientId'', Str ''ember9''), (''first_name'', Str ''Tom'')]])])]
     empty_state
   = Inr (Obj [(''id'', Str ''1''), (''villain_ids'', Arr [Undefined])],
          empty_state\<lparr>payload :=
            [(''home_planet'', Obj [(''id'', Str ''1''), (''villain_ids'', Arr [Undefined])]),
             (''_superVillains'',
                Arr [Obj [(''_clientId'', Str ''ember9''), (''first_name'', Str ''Tom'')]])]\<rparr>)
   \<and> read_prop (Obj [(''_clientId'', Str ''ember9''), (''first_name'', Str ''Tom'')]) ''_clientId''
       = Str ''ember9''
   \<and> Arr [Undefined] \<noteq> Arr [Str ''ember9'']"
  by (simp add: test_defs eval_defs)

section \<open>A client id that names an inherited member\<close>

text \<open>
  C9. A child whose client id is in no map is to be sideloaded without an error. The
  lookup \<^verbatim>\<open>parentSerializer.clientIdMap[clientId]\<close> is not restricted to own
  properties: for the client id \<^verbatim>\<open>"constructor"\<close> it yields
  \<^verbatim>\<open>Object.prototype.constructor\<close>, the branch of the save confirmation is taken, and
  \<^verbatim>\<open>clientRecord.adapterWillCommit()\<close> throws.
\<close>

theorem inherited_member_as_client_id:
  "extractSingle test_store 1 ''homePlanet''
     [(''home_planet'', Obj [(''id'', Str ''1''),
         (''villains'', Arr [Obj [(''id'', Str ''1''), (''_clientId'', Str ''constructor'')]])])]
     empty_state
   = Inl TypeError"
  by (simp add: test_defs eval_defs)

section \<open>Embedding the children of a record\<close>

text \<open>
  The payload of an embedded child does not depend on the state, and
  \<^verbatim>\<open>createClientId\<close> only ever adds to the map of the serializer it runs on.
\<close>

lemma fst_serialize_relation:
  "fst (serialize_relation st ser c s) =
     (if truthy (read_prop (Obj (props c)) (primaryKey (serializers st ser)))
      then AList.update (primaryKey (serializers st ser))
             (read_prop (Obj (props c)) (primaryKey (serializers st ser))) (serialize c)
      else AList.update (clientIdKey (serializers st ser)) (Str (guidFor c)) (serialize c))"
  by (simp add: serialize_relation_def createClientId_def)

lemma snd_serialize_relation:
  "snd (serialize_relation st ser c s) =
     (if truthy (read_prop (Obj (props c)) (primaryKey (serializers st ser))) then s
      else s\<lparr>clientIdMap := (clientIdMap s)
              (ser := AList.update (guidFor c) c (clientIdMap s ser))\<rparr>)"
  by (simp add: serialize_relation_def createClientId_def)

lemma map_relations_Cons:
  "map_relations st ser (c # cs) s =
     (fst (serialize_relation st ser c s)
        # fst (map_relations st ser cs (snd (serialize_relation st ser c s))),
      snd (map_relations st ser cs (snd (serialize_relation st ser c s))))"
  by (simp split: prod.splits)

lemma length_map_relations: "length (fst (map_relations st ser cs s)) = length cs"
  by (induction cs arbitrary: s) (simp_all add: map_relations_Cons del: map_relations.simps(2))

lemma nth_map_relations:
  "i < length cs \<Longrightarrow>
     fst (map_relations st ser cs s) ! i = fst (serialize_relation st ser (cs ! i) s)"
proof (induction cs arbitrary: s i)
  case Nil
  then show ?case by simp
next
  case (Cons c cs)
  show ?case
  proof (cases i)
    case 0
    then show ?thesis by (simp add: map_relations_Cons del: map_relations.simps(2))
  next
    case (Suc j)
    with Cons.prems have "j < length cs" by simp
    from Cons.IH [OF this] Suc show ?thesis
      by (simp add: map_relations_Cons fst_serialize_relation del: map_relations.simps(2))
  qed
qed

lemma map_relations_frame:
  "payload (snd (map_relations st ser cs s)) = payload s
   \<and> didSaveRecord (snd (map_relations st ser cs s)) = didSaveRecord s
   \<and> (\<forall>ser'. ser' \<noteq> ser \<longrightarrow> clientIdMap (snd (map_relations st ser cs s)) ser' = clientIdMap s ser')"
  by (induction cs arbitrary: s)
     (simp_all add: map_relations_Cons snd_serialize_relation del: map_relations.simps(2))

lemma map_relations_keys:
  "fst ` set (clientIdMap (snd (map_relations st ser cs s)) ser) =
     fst ` set (clientIdMap s ser)
     \<union> guidFor ` {c \<in> set cs. \<not> truthy (read_prop (Obj (props c)) (primaryKey (serializers st ser)))}"
  by (induction cs arbitrary: s)
     (auto simp: map_relations_Cons snd_serialize_relation dom_update simp del: map_relations.simps(2))

lemma map_relations_distinct:
  "distinct (map fst (clientIdMap s ser)) \<Longrightarrow>
     distinct (map fst (clientIdMap (snd (map_relations st ser cs s)) ser))"
  by (induction cs arbitrary: s)
     (simp_all add: map_relations_Cons snd_serialize_relation distinct_update del: map_relations.simps(2))

lemma map_relations_keeps:
  "map_of (clientIdMap s ser) g = Some c \<Longrightarrow> \<forall>c'\<in>set cs. guidFor c' = g \<longrightarrow> c' = c \<Longrightarrow>
     map_of (clientIdMap (snd (map_relations st ser cs s)) ser) g = Some c"
  by (induction cs arbitrary: s)
     (simp_all add: map_relations_Cons snd_serialize_relation update_conv' del: map_relations.simps(2))

lemma map_relations_maps:
  "c \<in> set cs \<Longrightarrow> \<not> truthy (read_prop (Obj (props c)) (primaryKey (serializers st ser))) \<Longrightarrow>
   inj_on guidFor (set cs) \<Longrightarrow>
     map_of (clientIdMap (snd (map_relations st ser cs s)) ser) (guidFor c) = Some c"
proof (induction cs arbitrary: s)
  case Nil
  then show ?case by simp
next
  case (Cons a cs)
  have inj: "inj_on guidFor (set cs)" using Cons.prems(3) by (simp add: inj_on_def)
  show ?case
  proof (cases "c = a")
    case True
    have "\<forall>c'\<in>set cs. guidFor c' = guidFor c \<longrightarrow> c' = c"
      using Cons.prems(3) True by (auto simp: inj_on_def)
    moreover have "map_of (clientIdMap (snd (serialize_relation st ser a s)) ser) (guidFor c) = Some c"
      using True Cons.prems(2) by (simp add: snd_serialize_relation update_conv')
    ultimately show ?thesis
      by (simp add: map_relations_Cons map_relations_keeps del: map_relations.simps(2))
  next
    case False
    with Cons.prems(1) have "c \<in> set cs" by simp
    from Cons.IH [OF this Cons.prems(2) inj] show ?thesis
      by (simp add: map_relations_Cons del: map_relations.simps(2))
  qed
qed

lemma filter_key_distinct:
  "distinct (map fst m) \<Longrightarrow> map_of m k = Some v \<Longrightarrow> filter (\<lambda>e. fst e = k) m = [(k, v)]"
proof (induction m)
  case Nil
  then show ?case by simp
next
  case (Cons e m)
  show ?case
  proof (cases "fst e = k")
    case True
    with Cons.prems have "e = (k, v)" by (cases e) simp
    moreover have "filter (\<lambda>e. fst e = k) m = []"
    proof -
      from Cons.prems(1) True have "k \<notin> fst ` set m" by auto
      then have "\<forall>x\<in>set m. fst x \<noteq> k" by auto
      then show ?thesis by (simp add: filter_empty_conv)
    qed
    ultimately show ?thesis by simp
  next
    case False
    with Cons show ?thesis by simp
  qed
qed

text \<open>
  C4. \<^verbatim>\<open>serializeHasMany\<close> on a relation configured \<^verbatim>\<open>{embedded: 'always'}\<close>
  writes one payload per child, in order, under \<^verbatim>\<open>keyForAttribute(key)\<close>. A child
  whose primary-key property is truthy gets that value under the primary key and no map
  entry is made for its guid; a child without one gets its guid under the client id key,
  and afterwards the serializer's map has exactly one entry under that guid, which maps
  it to the child. Distinct records have distinct guids (\<^verbatim>\<open>Ember.guidFor\<close>), and the
  map, being an object, has no key twice.
\<close>

theorem serializeHasMany_embeds:
  assumes emb: "embedded_always (attrs (serializers st ser)) (key r)"
    and rel: "map_of (related record) (key r) = Some children"
    and inj: "inj_on guidFor (set children)"
    and dist: "distinct (map fst (clientIdMap s ser))"
  shows "\<exists>datas s'.
     serializeHasMany st ser record js r s
       = Inr (AList.update (attribute st ser r) (Arr (map Obj datas)) js, s')
     \<and> length datas = length children
     \<and> (\<forall>i<length children.
          if truthy (read_prop (Obj (props (children ! i))) (primaryKey (serializers st ser)))
          then datas ! i =
                 AList.update (primaryKey (serializers st ser))
                   (read_prop (Obj (props (children ! i))) (primaryKey (serializers st ser)))
                   (serialize (children ! i))
               \<and> (guidFor (children ! i) \<in> fst ` set (clientIdMap s' ser)
                    \<longrightarrow> guidFor (children ! i) \<in> fst ` set (clientIdMap s ser))
          else datas ! i =
                 AList.update (clientIdKey (serializers st ser)) (Str (guidFor (children ! i)))
                   (serialize (children ! i))
               \<and> filter (\<lambda>e. fst e = guidFor (children ! i)) (clientIdMap s' ser)
                   = [(guidFor (children ! i), children ! i)])"
proof (intro exI conjI allI impI)
  let ?datas = "fst (map_relations st ser children s)"
  let ?s' = "snd (map_relations st ser children s)"
  show "serializeHasMany st ser record js r s
          = Inr (AList.update (attribute st ser r) (Arr (map Obj ?datas)) js, ?s')"
    using emb rel by (simp add: serializeHasMany_def attribute_def)
  show "length ?datas = length children" by (rule length_map_relations)
  fix i assume i: "i < length children"
  let ?c = "children ! i"
  let ?pk = "primaryKey (serializers st ser)"
  from i have mem: "?c \<in> set children" by simp
  show "if truthy (read_prop (Obj (props ?c)) ?pk)
        then ?datas ! i = AList.update ?pk (read_prop (Obj (props ?c)) ?pk) (serialize ?c)
             \<and> (guidFor ?c \<in> fst ` set (clientIdMap ?s' ser)
                  \<longrightarrow> guidFor ?c \<in> fst ` set (clientIdMap s ser))
        else ?datas ! i = AList.update (clientIdKey (serializers st ser)) (Str (guidFor ?c)) (serialize ?c)
             \<and> filter (\<lambda>e. fst e = guidFor ?c) (clientIdMap ?s' ser) = [(guidFor ?c, ?c)]"
  proof (cases "truthy (read_prop (Obj (props ?c)) ?pk)")
    case True
    have "guidFor ?c \<notin> guidFor ` {c \<in> set children. \<not> truthy (read_prop (Obj (props c)) ?pk)}"
    proof
      assume "guidFor ?c \<in> guidFor ` {c \<in> set children. \<not> truthy (read_prop (Obj (props c)) ?pk)}"
      then obtain c where c: "c \<in> set children" "\<not> truthy (read_prop (Obj (props c)) ?pk)"
        "guidFor ?c = guidFor c" by auto
      with inj mem have "c = ?c" by (auto simp: inj_on_def)
      with c True show False by simp
    qed
    with True i show ?thesis
      by (simp add: nth_map_relations fst_serialize_relation map_relations_keys)
  next
    case False
    from map_relations_maps [OF mem False inj]
    have "map_of (clientIdMap ?s' ser) (guidFor ?c) = Some ?c" .
    with map_relations_distinct [OF dist]
    have "filter (\<lambda>e. fst e = guidFor ?c) (clientIdMap ?s' ser) = [(guidFor ?c, ?c)]"
      by (intro filter_key_distinct)
    with False i show ?thesis by (simp add: nth_map_relations fst_serialize_relation)
  qed
qed

theorem serializeHasMany_embeds_witness:
  "embedded_always (attrs (serializers test_store 1)) (key villains)
   \<and> map_of (related league_of_two) (key villains) = Some [tom, erik]
   \<and> inj_on guidFor (set [tom, erik])
   \<and> distinct (map fst (clientIdMap empty_state 1))
   \<and> serializeHasMany test_store 1 league_of_two [(''name'', Str ''Villain League'')] villains empty_state
       = Inr ([(''name'', Str ''Villain League''),
               (''villains'',
                  Arr [Obj [(''first_name'', Str ''Tom''), (''last_name'', Str ''Dale''),
                            (''home_planet_id'', Str ''123''), (''_clientId'', Str ''ember1'')],
                       Obj [(''first_name'', Str ''Erik''), (''id'', Str ''4'')]])],
              tom_pending)
   \<and> filter (\<lambda>e. fst e = guidFor tom) (clientIdMap tom_pending 1) = [(guidFor tom, tom)]
   \<and> guidFor erik \<notin> fst ` set (clientIdMap tom_pending 1)"
proof -
  have h1: "embedded_always (attrs (serializers test_store 1)) (key villains)"
    by (simp add: test_defs embedded_always_def)
  have h2: "map_of (related league_of_two) (key villains) = Some [tom, erik]"
    by (simp add: league_of_two_def villains_def)
  have h3: "inj_on guidFor (set [tom, erik])"
    by (simp add: tom_def erik_def)
  have h4: "distinct (map fst (clientIdMap empty_state 1))"
    by (simp add: empty_state_def)
  have e: "serializeHasMany test_store 1 league_of_two [(''name'', Str ''Villain League'')] villains empty_state
       = Inr ([(''name'', Str ''Villain League''),
               (''villains'',
                  Arr [Obj [(''first_name'', Str ''Tom''), (''last_name'', Str ''Dale''),
                            (''home_planet_id'', Str ''123''), (''_clientId'', Str ''ember1'')],
                       Obj [(''first_name'', Str ''Erik''), (''id'', Str ''4'')]])],
              tom_pending)"
    by (simp add: serializeHasMany_def serialize_relation_def createClientId_def embedded_always_def
          test_defs league_of_two_def tom_def erik_def tom_pending_def fun_eq_iff)
  from serializeHasMany_embeds [OF h1 h2 h3 h4, of "[(''name'', Str ''Villain League'')]"] e
  obtain datas where
    d: "\<forall>i<length [tom, erik].
          if truthy (read_prop (Obj (props ([tom, erik] ! i))) (primaryKey (serializers test_store 1)))
          then datas ! i =
                 AList.update (primaryKey (serializers test_store 1))
                   (read_prop (Obj (props ([tom, erik] ! i))) (primaryKey (serializers test_store 1)))
                   (serialize ([tom, erik] ! i))
               \<and> (guidFor ([tom, erik] ! i) \<in> fst ` set (clientIdMap tom_pending 1)
                    \<longrightarrow> guidFor ([tom, erik] ! i) \<in> fst ` set (clientIdMap empty_state 1))
          else datas ! i =
                 AList.update (clientIdKey (serializers test_store 1)) (Str (guidFor ([tom, erik] ! i)))
                   (serialize ([tom, erik] ! i))
               \<and> filter (\<lambda>e. fst e = guidFor ([tom, erik] ! i)) (clientIdMap tom_pending 1)
                   = [(guidFor ([tom, erik] ! i), [tom, erik] ! i)]"
    by auto
  from d [rule_format, of 0]
  have t: "filter (\<lambda>e. fst e = guidFor tom) (clientIdMap tom_pending 1) = [(guidFor tom, tom)]"
    by (simp add: test_defs tom_def)
  from d [rule_format, of 1]
  have k: "guidFor erik \<notin> fst ` set (clientIdMap tom_pending 1)"
    by (simp add: test_defs erik_def empty_state_def)
  from h1 h2 h3 h4 e t k show ?thesis by blast
qed

section \<open>What the pass changes on a node\<close>

text \<open>
  The relationship callback either returns the node as it is, or replaces the embedded
  data by the id list; every other field of the node is left alone.
\<close>

lemma read_prop_rewrite:
  "k \<noteq> e \<Longrightarrow> k \<noteq> a \<Longrightarrow> read_prop (delete_prop (set_prop p e v) a) k = read_prop p k"
  by (cases p) (simp_all add: update_conv' delete_conv')

lemma read_prop_rewritten:
  "e \<noteq> a \<Longrightarrow> read_prop (delete_prop (set_prop (Obj fs) e v) a) e = v"
  by (simp add: update_conv' delete_conv')

lemma embedded_relationship_cases:
  assumes "embedded_relationship st ser r partial s = Inr (p', s')"
  obtains "p' = partial" "s' = s"
      "\<not> (kind r = ''hasMany'' \<and> is_embedded (read_prop (attrs (serializers st ser)) (key r))
          \<and> truthy (read_prop partial (attribute st ser r)))"
  | datas ids where "kind r = ''hasMany''"
      "is_embedded (read_prop (attrs (serializers st ser)) (key r))"
      "get_prop partial (attribute st ser r) = Inr (Arr datas)"
      "forEach_embedded st ser r datas [] (ensure_bucket (embeddedTypeKey st r) s) = Inr (ids, s')"
      "p' = delete_prop (set_prop partial (expandedKey st ser r) (Arr ids)) (attribute st ser r)"
  using assms by (cases partial) (auto split: if_splits sum.splits json.splits)

lemma embedded_relationship_frame:
  assumes "embedded_relationship st ser r partial s = Inr (p', s')"
    and "kind r = ''hasMany'' \<and> is_embedded (read_prop (attrs (serializers st ser)) (key r))
           \<longrightarrow> k \<noteq> expandedKey st ser r \<and> k \<noteq> attribute st ser r"
  shows "read_prop p' k = read_prop partial k"
  using assms(1)
proof (cases rule: embedded_relationship_cases)
  case 1
  then show ?thesis by simp
next
  case (2 datas ids)
  with assms(2) show ?thesis by (simp add: read_prop_rewrite)
qed

lemma relationships_loop_frame:
  "relationships_loop st ser rs partial s = Inr (p', s') \<Longrightarrow>
   \<forall>r\<in>set rs. kind r = ''hasMany'' \<and> is_embedded (read_prop (attrs (serializers st ser)) (key r))
           \<longrightarrow> k \<noteq> expandedKey st ser r \<and> k \<noteq> attribute st ser r \<Longrightarrow>
   read_prop p' k = read_prop partial k"
proof (induction rs arbitrary: partial s)
  case Nil
  then show ?case by simp
next
  case (Cons r rs)
  from Cons.prems(1) obtain p1 s1 where
    a: "embedded_relationship st ser r partial s = Inr (p1, s1)"
    and b: "relationships_loop st ser rs p1 s1 = Inr (p', s')"
    by (auto split: sum.splits simp del: embedded_relationship.simps)
  from embedded_relationship_frame [OF a] Cons.prems(2)
  have "read_prop p1 k = read_prop partial k" by simp
  moreover from Cons.IH [OF b] Cons.prems(2) have "read_prop p' k = read_prop p1 k" by simp
  ultimately show ?case by simp
qed

lemma updatePayloadWithEmbedded_frame:
  assumes "updatePayloadWithEmbedded st ser ty partial s = Inr (p', s')"
    and "k \<notin> set (rewritten_keys st ser ty)"
  shows "read_prop p' k = read_prop partial k"
proof (cases "truthy (attrs (serializers st ser))")
  case True
  with assms(1) have "relationships_loop st ser (eachRelationship st ty) partial s = Inr (p', s')"
    by simp
  moreover from assms(2)
  have "\<forall>r\<in>set (eachRelationship st ty).
          kind r = ''hasMany'' \<and> is_embedded (read_prop (attrs (serializers st ser)) (key r))
           \<longrightarrow> k \<noteq> expandedKey st ser r \<and> k \<noteq> attribute st ser r"
    by (auto simp: rewritten_keys_def)
  ultimately show ?thesis by (rule relationships_loop_frame)
next
  case False
  with assms(1) show ?thesis by simp
qed

lemma sideload_or_reconcile_pushes_id:
  "sideload_or_reconcile st ser pk b data ids s = Inr (ids', s') \<Longrightarrow> ids' = ids @ [read_prop data pk]"
  by (cases data)
     (auto simp: sideload_or_reconcile_def split: sum.splits lookup.splits json.splits)

lemma forEach_embedded_ids:
  "forEach_embedded st ser r datas ids s = Inr (ids', s') \<Longrightarrow>
   primaryKey (serializers st (serializerFor st (typeKey r)))
     \<notin> set (rewritten_keys st (serializerFor st (typeKey r)) (typeKey r)) \<Longrightarrow>
   ids' = ids @ map (\<lambda>c. read_prop c (primaryKey (serializers st (serializerFor st (typeKey r))))) datas"
proof (induction datas arbitrary: ids s)
  case Nil
  then show ?case by simp
next
  case (Cons d datas)
  let ?pk = "primaryKey (serializers st (serializerFor st (typeKey r)))"
  from Cons.prems(1) obtain d1 s1 ids1 s2 where
    a: "updatePayloadWithEmbedded st (serializerFor st (typeKey r)) (typeKey r) d s = Inr (d1, s1)"
    and b: "sideload_or_reconcile st ser ?pk (embeddedTypeKey st r) d1 ids s1 = Inr (ids1, s2)"
    and c: "forEach_embedded st ser r datas ids1 s2 = Inr (ids', s')"
    by (auto split: sum.splits simp del: updatePayloadWithEmbedded.simps)
  from updatePayloadWithEmbedded_frame [OF a Cons.prems(2)]
  have "read_prop d1 ?pk = read_prop d ?pk" .
  with sideload_or_reconcile_pushes_id [OF b] have "ids1 = ids @ [read_prop d ?pk]" by simp
  with Cons.IH [OF c Cons.prems(2)] show ?case by simp
qed

section \<open>Order of the id list\<close>

text \<open>
  C6. For an embedded has-many relation whose field holds the children
  \<open>c\<^sub>1, \<dots>, c\<^sub>n\<close>, a successful run of the relationship callback leaves under
  \<^verbatim>\<open>expandedKey\<close> the list of their primary-key values in the same order, whatever
  each child was (sideloaded or reconciled), and removes the field of the embedded data.
  The id of a child is read after the child has been flattened; it is the id of the
  source child because the primary key is not one of the fields the flattening of the
  child rewrites. The two field names are different ones: the key transforms are
  parameters, and with equal names line 183 would delete the id list again.
\<close>

theorem id_list_keeps_source_order:
  assumes "kind r = ''hasMany''"
    and "is_embedded (read_prop (attrs (serializers st ser)) (key r))"
    and "map_of fs (attribute st ser r) = Some (Arr children)"
    and "expandedKey st ser r \<noteq> attribute st ser r"
    and "primaryKey (serializers st (serializerFor st (typeKey r)))
           \<notin> set (rewritten_keys st (serializerFor st (typeKey r)) (typeKey r))"
    and "embedded_relationship st ser r (Obj fs) s = Inr (partial', s')"
  shows "read_prop partial' (expandedKey st ser r) =
           Arr (map (\<lambda>c. read_prop c (primaryKey (serializers st (serializerFor st (typeKey r)))))
                  children)
         \<and> read_prop partial' (attribute st ser r) = Undefined"
  using assms(6)
proof (cases rule: embedded_relationship_cases)
  case 1
  with assms(1,2,3) show ?thesis by simp
next
  case (2 datas ids)
  with assms(3) have [simp]: "datas = children" by simp
  from forEach_embedded_ids [OF 2(4) assms(5)]
  have "ids = map (\<lambda>c. read_prop c (primaryKey (serializers st (serializerFor st (typeKey r))))) children"
    by simp
  with 2(5) assms(4) show ?thesis
    by (simp add: update_conv' delete_conv')
qed

theorem id_list_keeps_source_order_witness:
  "kind comment_children = ''hasMany''
   \<and> is_embedded (read_prop (attrs (serializers test_store 2)) (key comment_children))
   \<and> map_of [(''id'', Str ''1''), (''body'', Str ''Hello''), (''children'', Arr three_replies)]
        (attribute test_store 2 comment_children) = Some (Arr three_replies)
   \<and> expandedKey test_store 2 comment_children \<noteq> attribute test_store 2 comment_children
   \<and> primaryKey (serializers test_store (serializerFor test_store (typeKey comment_children)))
        \<notin> set (rewritten_keys test_store (serializerFor test_store (typeKey comment_children))
                 (typeKey comment_children))
   \<and> embedded_relationship test_store 2 comment_children
        (Obj [(''id'', Str ''1''), (''body'', Str ''Hello''), (''children'', Arr three_replies)])
        empty_state
       = Inr (Obj [(''id'', Str ''1''), (''body'', Str ''Hello''),
                   (''child_ids'', Arr [Str ''2'', Str ''3'', Str ''4''])],
              empty_state\<lparr>payload := [(''_comments'', Arr three_replies)]\<rparr>)
   \<and> read_prop (Obj [(''id'', Str ''1''), (''body'', Str ''Hello''),
                     (''child_ids'', Arr [Str ''2'', Str ''3'', Str ''4''])])
         (expandedKey test_store 2 comment_children)
       = Arr (map (\<lambda>c. read_prop c ''id'') three_replies)"
proof -
  have h1: "kind comment_children = ''hasMany''" by (simp add: comment_children_def)
  have h2: "is_embedded (read_prop (attrs (serializers test_store 2)) (key comment_children))"
    by (simp add: test_defs2 is_embedded_def)
  have h3: "map_of [(''id'', Str ''1''), (''body'', Str ''Hello''), (''children'', Arr three_replies)]
        (attribute test_store 2 comment_children) = Some (Arr three_replies)"
    by (simp add: test_defs comment_children_def)
  have h4: "expandedKey test_store 2 comment_children \<noteq> attribute test_store 2 comment_children"
    by (simp add: test_defs2)
  have h5: "primaryKey (serializers test_store (serializerFor test_store (typeKey comment_children)))
        \<notin> set (rewritten_keys test_store (serializerFor test_store (typeKey comment_children))
                 (typeKey comment_children))"
    by (simp add: test_defs2 rewritten_keys_def is_embedded_def)
  have h6: "embedded_relationship test_store 2 comment_children
        (Obj [(''id'', Str ''1''), (''body'', Str ''Hello''), (''children'', Arr three_replies)])
        empty_state
       = Inr (Obj [(''id'', Str ''1''), (''body'', Str ''Hello''),
                   (''child_ids'', Arr [Str ''2'', Str ''3'', Str ''4''])],
              empty_state\<lparr>payload := [(''_comments'', Arr three_replies)]\<rparr>)"
    by (simp add: test_defs2 eval_defs)
  from id_list_keeps_source_order [OF h1 h2 h3 h4 h5 h6] h1 h2 h3 h4 h5 h6
  show ?thesis by (simp add: test_defs)
qed

section \<open>Relationships that are not embedded\<close>

text \<open>
  A relationship that is not a has-many relationship configured as embedded is passed
  over, so a type whose only embedded relationship is \<open>r\<close> is flattened by the callback
  of \<open>r\<close> alone, and a type without any is returned as it is.
\<close>

lemma embedded_relationship_skip:
  "\<not> (kind r = ''hasMany'' \<and> is_embedded (read_prop (attrs (serializers st ser)) (key r))) \<Longrightarrow>
     embedded_relationship st ser r partial s = Inr (partial, s)"
  by auto

lemma relationships_loop_skip:
  "\<forall>r\<in>set rs. \<not> (kind r = ''hasMany'' \<and> is_embedded (read_prop (attrs (serializers st ser)) (key r))) \<Longrightarrow>
     relationships_loop st ser rs partial s = Inr (partial, s)"
  by (induction rs) (simp_all add: embedded_relationship_skip del: embedded_relationship.simps)

lemma relationships_loop_only:
  assumes "\<forall>r'\<in>set pre \<union> set post.
             \<not> (kind r' = ''hasMany'' \<and> is_embedded (read_prop (attrs (serializers st ser)) (key r')))"
  shows "relationships_loop st ser (pre @ r # post) partial s = embedded_relationship st ser r partial s"
  using assms
proof (induction pre)
  case Nil
  then show ?case
    by (simp add: relationships_loop_skip split: sum.splits del: embedded_relationship.simps)
next
  case (Cons a pre)
  then show ?case by (simp add: embedded_relationship_skip del: embedded_relationship.simps)
qed

lemma rewritten_keys_Nil:
  "rewritten_keys st ser ty = [] \<longleftrightarrow>
     (\<forall>r\<in>set (eachRelationship st ty).
        \<not> (kind r = ''hasMany'' \<and> is_embedded (read_prop (attrs (serializers st ser)) (key r))))"
  by (auto simp: rewritten_keys_def)

lemma updatePayloadWithEmbedded_identity:
  "rewritten_keys st ser ty = [] \<Longrightarrow> updatePayloadWithEmbedded st ser ty partial s = Inr (partial, s)"
  by (simp add: rewritten_keys_Nil relationships_loop_skip)

section \<open>The round trip of unsaved children\<close>

text \<open>
  Outbound, children without an id and with distinct guids are entered in the map in
  order; inbound, each echoed child finds its entry, which is deleted.
\<close>

lemma update_fresh: "k \<notin> fst ` set m \<Longrightarrow> AList.update k v m = m @ [(k, v)]"
  by (induction m) auto

lemma map_relations_unsaved:
  assumes "\<forall>c\<in>set cs. \<not> truthy (read_prop (Obj (props c)) (primaryKey (serializers st ser)))"
    and "distinct (map guidFor cs)"
    and "set (map guidFor cs) \<inter> fst ` set (clientIdMap s ser) = {}"
  shows "map_relations st ser cs s =
           (map (\<lambda>c. AList.update (clientIdKey (serializers st ser)) (Str (guidFor c)) (serialize c)) cs,
            s\<lparr>clientIdMap := (clientIdMap s)
                 (ser := clientIdMap s ser @ map (\<lambda>c. (guidFor c, c)) cs)\<rparr>)"
  using assms
proof (induction cs arbitrary: s)
  case Nil
  then show ?case by simp
next
  case (Cons c cs)
  let ?s1 = "s\<lparr>clientIdMap := (clientIdMap s)(ser := clientIdMap s ser @ [(guidFor c, c)])\<rparr>"
  from Cons.prems have fresh: "guidFor c \<notin> fst ` set (clientIdMap s ser)" by auto
  have upd: "AList.update (guidFor c) c (clientIdMap s ser) = clientIdMap s ser @ [(guidFor c, c)]"
    using fresh by (rule update_fresh)
  have one: "serialize_relation st ser c s =
               (AList.update (clientIdKey (serializers st ser)) (Str (guidFor c)) (serialize c), ?s1)"
    using Cons.prems(1) by (simp add: serialize_relation_def createClientId_def upd)
  have "map_relations st ser cs ?s1 =
           (map (\<lambda>c. AList.update (clientIdKey (serializers st ser)) (Str (guidFor c)) (serialize c)) cs,
            ?s1\<lparr>clientIdMap := (clientIdMap ?s1)
                 (ser := clientIdMap ?s1 ser @ map (\<lambda>c. (guidFor c, c)) cs)\<rparr>)"
    using Cons.prems by (intro Cons.IH) auto
  moreover have "?s1\<lparr>clientIdMap := (clientIdMap ?s1)
                 (ser := clientIdMap ?s1 ser @ map (\<lambda>c. (guidFor c, c)) cs)\<rparr>
        = s\<lparr>clientIdMap := (clientIdMap s)
                 (ser := clientIdMap s ser @ map (\<lambda>c. (guidFor c, c)) (c # cs))\<rparr>"
    by (intro state.equality ext) simp_all
  ultimately show ?case using one by (simp del: fun_upd_apply)
qed

lemma delete_filter: "AList.delete k m = filter (\<lambda>e. fst e \<noteq> k) m"
  by (induction m) auto

lemma forEach_embedded_reconciles:
  assumes flat: "rewritten_keys st (serializerFor st (typeKey r)) (typeKey r) = []"
    and keys: "primaryKey (serializers st (serializerFor st (typeKey r))) \<noteq> clientIdKey (serializers st ser)"
  shows "distinct (map (\<lambda>p. guidFor (fst p)) cps) \<Longrightarrow>
     \<forall>c\<in>fst ` set cps. map_of (clientIdMap s ser) (guidFor c) = Some c \<Longrightarrow>
     forEach_embedded st ser r
        (map (\<lambda>(c, sid). set_prop
                (Obj (AList.update (clientIdKey (serializers st ser)) (Str (guidFor c)) (serialize c)))
                (primaryKey (serializers st (serializerFor st (typeKey r)))) sid) cps) ids s
      = Inr (ids @ map snd cps,
             s\<lparr>didSaveRecord := didSaveRecord s @
                    map (\<lambda>(c, sid). (c, set_prop
                      (Obj (AList.update (clientIdKey (serializers st ser)) (Str (guidFor c)) (serialize c)))
                      (primaryKey (serializers st (serializerFor st (typeKey r)))) sid)) cps,
               clientIdMap := (clientIdMap s)
                 (ser := filter (\<lambda>e. fst e \<notin> guidFor ` fst ` set cps) (clientIdMap s ser))\<rparr>)"
proof (induction cps arbitrary: ids s)
  case Nil
  have "s\<lparr>didSaveRecord := didSaveRecord s, clientIdMap := (clientIdMap s)(ser := clientIdMap s ser)\<rparr> = s"
    by (intro state.equality ext) simp_all
  then show ?case by simp
next
  case (Cons p cps)
  obtain c sid where p: "p = (c, sid)" by (cases p)
  let ?cik = "clientIdKey (serializers st ser)"
  let ?pk = "primaryKey (serializers st (serializerFor st (typeKey r)))"
  let ?d = "Obj (AList.update ?pk sid (AList.update ?cik (Str (guidFor c)) (serialize c)))"
  let ?s1 = "s\<lparr>didSaveRecord := didSaveRecord s @ [(c, ?d)],
               clientIdMap := (clientIdMap s)(ser := AList.delete (guidFor c) (clientIdMap s ser))\<rparr>"
  have own: "map_of (clientIdMap s ser) (guidFor c) = Some c" using Cons.prems(2) p by simp
  have cid: "read_prop ?d ?cik = Str (guidFor c)" using keys by (simp add: update_conv')
  have step: "sideload_or_reconcile st ser ?pk (embeddedTypeKey st r) ?d ids s = Inr (ids @ [sid], ?s1)"
    using own cid by (simp add: sideload_or_reconcile_def lookup_clientId_def update_conv')
  have d: "distinct (map (\<lambda>p. guidFor (fst p)) cps)" using Cons.prems(1) by simp
  have m: "\<forall>c'\<in>fst ` set cps. map_of (clientIdMap ?s1 ser) (guidFor c') = Some c'"
  proof
    fix c' assume c': "c' \<in> fst ` set cps"
    then have "guidFor c' \<noteq> guidFor c" using Cons.prems(1) p by force
    moreover have "map_of (clientIdMap s ser) (guidFor c') = Some c'" using Cons.prems(2) c' by auto
    ultimately show "map_of (clientIdMap ?s1 ser) (guidFor c') = Some c'" by (simp add: delete_conv')
  qed
  have fin: "?s1\<lparr>didSaveRecord := didSaveRecord ?s1 @
                    map (\<lambda>(c, sid). (c, set_prop
                      (Obj (AList.update ?cik (Str (guidFor c)) (serialize c))) ?pk sid)) cps,
               clientIdMap := (clientIdMap ?s1)
                 (ser := filter (\<lambda>e. fst e \<notin> guidFor ` fst ` set cps) (clientIdMap ?s1 ser))\<rparr>
           = s\<lparr>didSaveRecord := didSaveRecord s @
                    map (\<lambda>(c, sid). (c, set_prop
                      (Obj (AList.update ?cik (Str (guidFor c)) (serialize c))) ?pk sid)) (p # cps),
               clientIdMap := (clientIdMap s)
                 (ser := filter (\<lambda>e. fst e \<notin> guidFor ` fst ` set (p # cps)) (clientIdMap s ser))\<rparr>"
    by (intro state.equality ext) (auto simp: p delete_filter intro: filter_cong)
  show ?case
    using Cons.IH [OF d m, of "ids @ [sid]"] step fin
    by (simp add: p updatePayloadWithEmbedded_identity [OF flat]
          del: updatePayloadWithEmbedded.simps fun_upd_apply)
qed

lemma embedded_always_is_embedded:
  "embedded_always a k \<Longrightarrow> truthy a \<and> is_embedded (read_prop a k)"
  by (simp add: embedded_always_def is_embedded_def)

lemma map_of_guids:
  "distinct (map guidFor cs) \<Longrightarrow> c \<in> set cs \<Longrightarrow>
     map_of (map (\<lambda>c. (guidFor c, c)) cs) (guidFor c) = Some c"
proof (induction cs)
  case Nil
  then show ?case by simp
next
  case (Cons a cs)
  show ?case
  proof (cases "c = a")
    case True
    then show ?thesis by simp
  next
    case False
    with Cons.prems have c: "c \<in> set cs" and "guidFor a \<notin> guidFor ` set cs" by auto
    then have "guidFor c \<noteq> guidFor a" by (metis imageI)
    with Cons.IH c Cons.prems(1) show ?thesis by simp
  qed
qed

text \<open>
  C1. A record has \<open>n\<close> children, none of which has an id, embedded under the
  relationship \<open>r\<close>, and the serializer's map is empty. \<^verbatim>\<open>serializeHasMany\<close> embeds
  them; the response carries, under the root key and the relation's field, the same
  child payloads in the same order, each with a server id added under the primary key.
  \<^verbatim>\<open>extractSingle\<close> on that response then succeeds, the flattened root holds the
  list of the \<open>n\<close> server ids in order under \<^verbatim>\<open>expandedKey\<close>, the embedded data
  are removed, each child has been handed to the save confirmation and the serializer's
  map is empty again. The type of the children embeds nothing itself, \<open>r\<close> is the only
  embedded relationship of the root type, the relation's two field names differ, and
  the children's primary key is not the client id key.
\<close>

theorem round_trip:
  assumes emb: "embedded_always (attrs (serializers st ser)) (key r)"
    and kind: "kind r = ''hasMany''"
    and rels: "eachRelationship st ty = pre @ r # post"
    and others: "\<forall>r'\<in>set pre \<union> set post.
        \<not> (kind r' = ''hasMany'' \<and> is_embedded (read_prop (attrs (serializers st ser)) (key r')))"
    and flat: "rewritten_keys st (serializerFor st (typeKey r)) (typeKey r) = []"
    and names: "expandedKey st ser r \<noteq> attribute st ser r"
    and keys: "primaryKey (serializers st (serializerFor st (typeKey r))) \<noteq> clientIdKey (serializers st ser)"
    and children: "map_of (related record) (key r) = Some children"
    and unsaved: "\<forall>c\<in>set children.
        \<not> truthy (read_prop (Obj (props c)) (primaryKey (serializers st ser)))"
    and guids: "distinct (map guidFor children)"
    and empty: "clientIdMap s ser = []"
    and out: "serializeHasMany st ser record js r s = Inr (js', s1)"
    and embedded: "read_prop (Obj js') (attribute st ser r) = Arr embedded"
    and sids: "length sids = length children"
    and root: "map_of pl (keyForAttribute (serializers st ser) ty) = Some (Obj fs)"
    and echoed: "map_of fs (attribute st ser r) =
        Some (Arr (map2 (\<lambda>d sid. set_prop d (primaryKey (serializers st (serializerFor st (typeKey r)))) sid)
                     embedded sids))"
  shows "\<exists>partial' s'.
      extractSingle st ser ty pl s1 = Inr (partial', s')
      \<and> read_prop partial' (expandedKey st ser r) = Arr sids
      \<and> read_prop partial' (attribute st ser r) = Undefined
      \<and> clientIdMap s' ser = []
      \<and> length (didSaveRecord s') = length (didSaveRecord s) + length children"
proof -
  let ?cik = "clientIdKey (serializers st ser)"
  let ?pk = "primaryKey (serializers st (serializerFor st (typeKey r)))"
  let ?echo = "\<lambda>(c, sid). set_prop (Obj (AList.update ?cik (Str (guidFor c)) (serialize c))) ?pk sid"
  let ?cps = "zip children sids"
  from emb have att: "truthy (attrs (serializers st ser))"
    and ise: "is_embedded (read_prop (attrs (serializers st ser)) (key r))"
    by (simp_all add: embedded_always_is_embedded)
  have mr: "map_relations st ser children s =
           (map (\<lambda>c. AList.update ?cik (Str (guidFor c)) (serialize c)) children,
            s\<lparr>clientIdMap := (clientIdMap s)
                 (ser := clientIdMap s ser @ map (\<lambda>c. (guidFor c, c)) children)\<rparr>)"
    using unsaved guids empty by (intro map_relations_unsaved) simp_all
  from out emb children mr
  have js': "js' = AList.update (attribute st ser r)
                     (Arr (map Obj (map (\<lambda>c. AList.update ?cik (Str (guidFor c)) (serialize c)) children))) js"
    and s1: "s1 = s\<lparr>clientIdMap := (clientIdMap s)
                 (ser := clientIdMap s ser @ map (\<lambda>c. (guidFor c, c)) children)\<rparr>"
    by (simp_all add: serializeHasMany_def attribute_def)
  from js' embedded
  have emb_eq: "embedded = map (\<lambda>c. Obj (AList.update ?cik (Str (guidFor c)) (serialize c))) children"
    by (simp add: update_conv' comp_def)
  have echo_eq: "map2 (\<lambda>d sid. set_prop d ?pk sid) embedded sids = map ?echo ?cps"
    unfolding emb_eq by (simp add: zip_map1 case_prod_unfold)
  have m1: "clientIdMap s1 ser = map (\<lambda>c. (guidFor c, c)) children"
    using s1 empty by simp
  let ?s2 = "ensure_bucket (embeddedTypeKey st r) (s1\<lparr>payload := pl\<rparr>)"
  have m2: "clientIdMap ?s2 ser = map (\<lambda>c. (guidFor c, c)) children"
    using m1 by (simp add: ensure_bucket_def)
  have mapz: "map fst ?cps = children"
    using sids by (simp add: map_fst_zip)
  have fstz: "fst ` set ?cps = set children"
  proof -
    have "fst ` set ?cps = set (map fst ?cps)" by simp
    with mapz show ?thesis by simp
  qed
  have d: "distinct (map (\<lambda>p. guidFor (fst p)) ?cps)"
  proof -
    have "map (\<lambda>p. guidFor (fst p)) ?cps = map guidFor (map fst ?cps)" by simp
    with mapz guids show ?thesis by simp
  qed
  have own: "\<forall>c\<in>fst ` set ?cps. map_of (clientIdMap ?s2 ser) (guidFor c) = Some c"
  proof
    fix c assume "c \<in> fst ` set ?cps"
    with fstz have c: "c \<in> set children" by simp
    have "map_of (map (\<lambda>c. (guidFor c, c)) children) (guidFor c) = Some c"
      using guids c by (rule map_of_guids)
    with m2 show "map_of (clientIdMap ?s2 ser) (guidFor c) = Some c" by simp
  qed
  let ?s3 = "?s2\<lparr>didSaveRecord := didSaveRecord ?s2 @ map (\<lambda>(c, sid). (c, ?echo (c, sid))) ?cps,
               clientIdMap := (clientIdMap ?s2)
                 (ser := filter (\<lambda>e. fst e \<notin> guidFor ` fst ` set ?cps) (clientIdMap ?s2 ser))\<rparr>"
  from forEach_embedded_reconciles [OF flat keys d own, of "[]"]
  have loop: "forEach_embedded st ser r (map ?echo ?cps) [] ?s2 = Inr (map snd ?cps, ?s3)"
    by (simp add: case_prod_unfold)
  have snds: "map snd ?cps = sids" using sids by (simp add: map_snd_zip)
  let ?p' = "delete_prop (set_prop (Obj fs) (expandedKey st ser r) (Arr sids)) (attribute st ser r)"
  have cb: "embedded_relationship st ser r (Obj fs) (s1\<lparr>payload := pl\<rparr>) = Inr (?p', ?s3)"
    using kind ise echoed loop snds by (simp add: echo_eq)
  have upd: "updatePayloadWithEmbedded st ser ty (Obj fs) (s1\<lparr>payload := pl\<rparr>) = Inr (?p', ?s3)"
    using att rels cb relationships_loop_only [OF others, of r "Obj fs" "s1\<lparr>payload := pl\<rparr>"]
    by (simp del: embedded_relationship.simps)
  have empty': "clientIdMap ?s3 ser = []"
    using m2 fstz by (simp add: filter_empty_conv)
  have len: "length (didSaveRecord ?s3) = length (didSaveRecord s) + length children"
    using sids s1 by (simp add: ensure_bucket_def)
  show ?thesis
    using root upd names empty' len
    by (simp add: extractSingle_def update_conv' delete_conv'
          del: updatePayloadWithEmbedded.simps)
qed

theorem round_trip_witness:
  "embedded_always (attrs (serializers test_store 1)) (key villains)
   \<and> eachRelationship test_store ''homePlanet'' = [] @ villains # []
   \<and> map_of (related league) (key villains) = Some [tom]
   \<and> \<not> truthy (read_prop (Obj (props tom)) (primaryKey (serializers test_store 1)))
   \<and> clientIdMap empty_state 1 = []
   \<and> serializeHasMany test_store 1 league [(''name'', Str ''Villain League'')] villains empty_state
       = Inr ([(''name'', Str ''Villain League''),
               (''villains'',
                  Arr [Obj [(''first_name'', Str ''Tom''), (''last_name'', Str ''Dale''),
                            (''home_planet_id'', Str ''123''), (''_clientId'', Str ''ember1'')]])],
              tom_pending)
   \<and> clientIdMap tom_pending 1 = [(''ember1'', tom)]
   \<and> (\<exists>partial' s'.
         extractSingle test_store 1 ''homePlanet'' league_response tom_pending = Inr (partial', s')
         \<and> read_prop partial' ''villain_ids'' = Arr [Str ''1'']
         \<and> read_prop partial' ''villains'' = Undefined
         \<and> clientIdMap s' 1 = []
         \<and> length (didSaveRecord s') = 1)"
proof -
  let ?js' = "[(''name'', Str ''Villain League''),
               (''villains'',
                  Arr [Obj [(''first_name'', Str ''Tom''), (''last_name'', Str ''Dale''),
                            (''home_planet_id'', Str ''123''), (''_clientId'', Str ''ember1'')]])]"
  let ?fs = "[(''name'', Str ''Villain League''),
            (''villains'',
               Arr [Obj [(''first_name'', Str ''Tom''), (''last_name'', Str ''Dale''),
                         (''home_planet_id'', Str ''123''), (''_clientId'', Str ''ember1''),
                         (''id'', Str ''1'')]])]"
  have emb: "embedded_always (attrs (serializers test_store 1)) (key villains)"
    by (simp add: test_defs embedded_always_def)
  have kind: "kind villains = ''hasMany''" by (simp add: villains_def)
  have rels: "eachRelationship test_store ''homePlanet'' = [] @ villains # []"
    by (simp add: test_defs)
  have others: "\<forall>r'\<in>set [] \<union> set [].
        \<not> (kind r' = ''hasMany'' \<and> is_embedded (read_prop (attrs (serializers test_store 1)) (key r')))"
    by simp
  have flat: "rewritten_keys test_store (serializerFor test_store (typeKey villains)) (typeKey villains) = []"
    by (simp add: rewritten_keys_def test_defs is_embedded_def)
  have names: "expandedKey test_store 1 villains \<noteq> attribute test_store 1 villains"
    by (simp add: test_defs)
  have keys: "primaryKey (serializers test_store (serializerFor test_store (typeKey villains)))
                \<noteq> clientIdKey (serializers test_store 1)"
    by (simp add: test_defs)
  have children: "map_of (related league) (key villains) = Some [tom]"
    by (simp add: league_def villains_def)
  have unsaved: "\<forall>c\<in>set [tom].
        \<not> truthy (read_prop (Obj (props c)) (primaryKey (serializers test_store 1)))"
    by (simp add: test_defs tom_def)
  have guids: "distinct (map guidFor [tom])" by simp
  have empty: "clientIdMap empty_state 1 = []" by (simp add: empty_state_def)
  have out: "serializeHasMany test_store 1 league [(''name'', Str ''Villain League'')] villains empty_state
       = Inr (?js', tom_pending)"
    by (simp add: serializeHasMany_def serialize_relation_def createClientId_def embedded_always_def
          test_defs league_def tom_def tom_pending_def fun_eq_iff)
  have embedded: "read_prop (Obj ?js') (attribute test_store 1 villains) =
      Arr [Obj [(''first_name'', Str ''Tom''), (''last_name'', Str ''Dale''),
                (''home_planet_id'', Str ''123''), (''_clientId'', Str ''ember1'')]]"
    by (simp add: test_defs)
  have sids: "length [Str ''1''] = length [tom]" by simp
  have root: "map_of league_response (keyForAttribute (serializers test_store 1) ''homePlanet'')
                = Some (Obj ?fs)"
    by (simp add: league_response_def test_defs)
  have echoed: "map_of ?fs (attribute test_store 1 villains) =
        Some (Arr (map2 (\<lambda>d sid. set_prop d
                       (primaryKey (serializers test_store (serializerFor test_store (typeKey villains)))) sid)
                     [Obj [(''first_name'', Str ''Tom''), (''last_name'', Str ''Dale''),
                           (''home_planet_id'', Str ''123''), (''_clientId'', Str ''ember1'')]]
                     [Str ''1'']))"
    by (simp add: test_defs)
  have pending: "clientIdMap tom_pending 1 = [(''ember1'', tom)]" by (simp add: tom_pending_def)
  from round_trip [OF emb kind rels others flat names keys children unsaved guids empty out
      embedded sids root echoed]
  have "\<exists>partial' s'.
         extractSingle test_store 1 ''homePlanet'' league_response tom_pending = Inr (partial', s')
         \<and> read_prop partial' ''villain_ids'' = Arr [Str ''1'']
         \<and> read_prop partial' ''villains'' = Undefined
         \<and> clientIdMap s' 1 = []
         \<and> length (didSaveRecord s') = 1"
    by (simp add: test_defs)
  with emb rels children unsaved empty out pending show ?thesis by simp
qed

section \<open>The home planet Umber\<close>

text \<open>
  The pass on the payload of the first test, and the decode of its root and of its one
  sideloaded child.
\<close>

lemma umber_pass:
  "extractSingle test_store 1 ''homePlanet'' umber_response empty_state
     = Inr (Obj [(''id'', Str ''1''), (''name'', Str ''Umber''), (''villain_ids'', Arr [Str ''1''])],
            empty_state\<lparr>payload :=
               [(''home_planet'',
                 Obj [(''id'', Str ''1''), (''name'', Str ''Umber''), (''villain_ids'', Arr [Str ''1''])]),
                (''_superVillains'', Arr [Obj [(''id'', Str ''1''), (''first_name'', Str ''Tom'')]])]\<rparr>)"
  by (simp add: test_defs eval_defs umber_response_def)

lemma umber_root_decoded:
  "base_decode test_attributes test_store 1 ''homePlanet''
     (Obj [(''id'', Str ''1''), (''name'', Str ''Umber''), (''villain_ids'', Arr [Str ''1''])])
   = Obj [(''id'', Str ''1''), (''name'', Str ''Umber''), (''villains'', Arr [Str ''1''])]"
  by (simp add: base_decode_def decode_field_def test_attributes_def test_defs)

lemma umber_child_decoded:
  "base_decode test_attributes test_store (serializerFor test_store ''superVillain'')
     ''superVillain'' (Obj [(''id'', Str ''1''), (''first_name'', Str ''Tom'')])
   = Obj [(''id'', Str ''1''), (''firstName'', Str ''Tom'')]"
  by (simp add: base_decode_def decode_field_def test_attributes_def test_defs)

lemma umber_keys:
  "keyForAttribute (serializers test_store 1) ''homePlanet'' = ''home_planet''"
  "test_typeForRoot ''_superVillains'' = ''superVillain''"
  by (simp_all add: test_defs test_typeForRoot_def)

text \<open>
  C7, as the code has it. For the payload
  \<^verbatim>\<open>{home_planet: {id: "1", name: "Umber", villains: [{id: "1", first_name: "Tom"}]}}\<close>
  with \<^verbatim>\<open>villains\<close> embedded always, \<^verbatim>\<open>extractSingle\<close> with its base method
  returns the root \<^verbatim>\<open>{id: "1", name: "Umber", villains: ["1"]}\<close>, and the sideloaded
  child \<^verbatim>\<open>{id: "1", firstName: "Tom"}\<close> stands in the bucket named
  \<^verbatim>\<open>_superVillains\<close>, the plural of the type key after an underscore (line 151).
\<close>

theorem umber_scenario:
  "extractSingle_with_super test_attributes test_typeForRoot test_store 1 ''homePlanet''
     umber_response empty_state
   = Inr (Obj [(''id'', Str ''1''), (''name'', Str ''Umber''), (''villains'', Arr [Str ''1''])],
          empty_state\<lparr>payload :=
            [(''home_planet'',
              Obj [(''id'', Str ''1''), (''name'', Str ''Umber''), (''villains'', Arr [Str ''1''])]),
             (''_superVillains'', Arr [Obj [(''id'', Str ''1''), (''firstName'', Str ''Tom'')]])]\<rparr>)"
  unfolding extractSingle_with_super_def umber_pass
  by (simp add: umber_root_decoded umber_child_decoded umber_keys del: One_nat_def)

text \<open>
  The payload has no bucket named \<^verbatim>\<open>superVillains\<close>: the pass names the bucket on
  line 151, and the base method decodes the entries of a bucket, not its key.
\<close>

theorem umber_bucket_is_not_superVillains:
  "extractSingle_with_super test_attributes test_typeForRoot test_store 1 ''homePlanet''
     umber_response empty_state
   = Inr (Obj [(''id'', Str ''1''), (''name'', Str ''Umber''), (''villains'', Arr [Str ''1''])],
          empty_state\<lparr>payload :=
            [(''home_planet'',
              Obj [(''id'', Str ''1''), (''name'', Str ''Umber''), (''villains'', Arr [Str ''1''])]),
             (''_superVillains'', Arr [Obj [(''id'', Str ''1''), (''firstName'', Str ''Tom'')]])]\<rparr>)
   \<and> read_prop
        (Obj [(''home_planet'',
               Obj [(''id'', Str ''1''), (''name'', Str ''Umber''), (''villains'', Arr [Str ''1''])]),
              (''_superVillains'', Arr [Obj [(''id'', Str ''1''), (''firstName'', Str ''Tom'')]])])
        ''superVillains'' = Undefined"
  unfolding extractSingle_with_super_def umber_pass
  by (simp add: umber_root_decoded umber_child_decoded umber_keys del: One_nat_def)

section \<open>A type that embeds its own type\<close>
















end
